theory Spec2Isabelle
  imports Main "HOL-Library.Sublist" "HOL-Library.Multiset"
begin

section \<open>Shallow embedding of pdf\_extractor.py\<close>

text \<open>
  The development follows \<^verbatim>\<open>src/pdf_extractor.py\<close>. The external engines (PyMuPDF,
  Tesseract, spaCy), the file system and the terminal are explicit parameters: every call
  that the source guards with \<^verbatim>\<open>try/except\<close> has an outcome that is either an exception or
  a value, and the functions below branch on it exactly where the source does.
  Text is modelled over ASCII: a \<^typ>\<open>string\<close> is a list of characters, the predicates
  on characters are those of Python on the code points below 128.
\<close>

subsection \<open>Python strings\<close>

definition digit_char :: "nat \<Rightarrow> char" where
  "digit_char d = char_of (48 + d)"

definition is_digit :: "char \<Rightarrow> bool" where
  "is_digit c = (48 \<le> (of_char c :: nat) \<and> (of_char c :: nat) \<le> 57)"

definition digit_val :: "char \<Rightarrow> nat" where
  "digit_val c = of_char c - 48"

text \<open>\<^verbatim>\<open>str(n)\<close> for a natural number: its decimal digits.\<close>

fun digits :: "nat \<Rightarrow> string" where
  "digits n = (if n < 10 then [digit_char n] else digits (n div 10) @ [digit_char (n mod 10)])"

declare digits.simps [simp del]

text \<open>\<^verbatim>\<open>str(i)\<close> for a Python integer.\<close>

definition py_str :: "int \<Rightarrow> string" where
  "py_str i = (if 0 \<le> i then digits (nat i) else CHR ''-'' # digits (nat (- i)))"

definition zfill :: "nat \<Rightarrow> string \<Rightarrow> string" where
  "zfill w s = replicate (w - length s) CHR ''0'' @ s"

text \<open>The format \<^verbatim>\<open>f"{i:04d}"\<close>: width four, padded with zeros after the sign.\<close>

definition fmt04d :: "int \<Rightarrow> string" where
  "fmt04d i = (if 0 \<le> i then zfill 4 (digits (nat i)) else CHR ''-'' # zfill 3 (digits (nat (- i))))"

text \<open>\<^verbatim>\<open>str.isdigit\<close> and \<^verbatim>\<open>int(s)\<close> on a string of decimal digits.\<close>

definition py_isdigit :: "string \<Rightarrow> bool" where
  "py_isdigit s = (s \<noteq> [] \<and> list_all is_digit s)"

definition digits_val :: "string \<Rightarrow> nat" where
  "digits_val s = foldl (\<lambda>a c. 10 * a + digit_val c) 0 s"

definition int_of_digits :: "string \<Rightarrow> int" where
  "int_of_digits s = int (digits_val s)"

definition is_upper :: "char \<Rightarrow> bool" where
  "is_upper c = (65 \<le> (of_char c :: nat) \<and> (of_char c :: nat) \<le> 90)"

definition is_lower :: "char \<Rightarrow> bool" where
  "is_lower c = (97 \<le> (of_char c :: nat) \<and> (of_char c :: nat) \<le> 122)"

definition lower_char :: "char \<Rightarrow> char" where
  "lower_char c = (if is_upper c then char_of ((of_char c :: nat) + 32) else c)"

definition py_lower :: "string \<Rightarrow> string" where
  "py_lower s = map lower_char s"

text \<open>\<^verbatim>\<open>str.isspace\<close> below 128: tab, line feed, vertical tab, form feed, carriage return,
  the four separators 28 to 31, and the blank.\<close>

definition py_isspace :: "char \<Rightarrow> bool" where
  "py_isspace c = ((9 \<le> (of_char c :: nat) \<and> (of_char c :: nat) \<le> 13)
     \<or> (28 \<le> (of_char c :: nat) \<and> (of_char c :: nat) \<le> 32))"

definition py_strip :: "string \<Rightarrow> string" where
  "py_strip s = rev (dropWhile py_isspace (rev (dropWhile py_isspace s)))"

text \<open>\<^verbatim>\<open>sub in s\<close> for strings.\<close>

fun contains :: "string \<Rightarrow> string \<Rightarrow> bool" where
  "contains sub [] = (sub = [])"
| "contains sub (c # cs) = (prefix sub (c # cs) \<or> contains sub cs)"

text \<open>\<^verbatim>\<open>str.rfind\<close> for one character, and pathlib's \<^verbatim>\<open>suffix\<close> and \<^verbatim>\<open>stem\<close> of a
  file name: the suffix starts at the last dot when that dot is neither the first nor the
  last character.\<close>

fun rfind :: "char \<Rightarrow> string \<Rightarrow> nat option" where
  "rfind c [] = None"
| "rfind c (x # xs) =
     (case rfind c xs of Some i \<Rightarrow> Some (Suc i) | None \<Rightarrow> (if x = c then Some 0 else None))"

definition path_suffix :: "string \<Rightarrow> string" where
  "path_suffix name =
     (case rfind CHR ''.'' name of
        None \<Rightarrow> []
      | Some i \<Rightarrow> (if 0 < i \<and> i + 1 < length name then drop i name else []))"

definition path_stem :: "string \<Rightarrow> string" where
  "path_stem name =
     (case rfind CHR ''.'' name of
        None \<Rightarrow> name
      | Some i \<Rightarrow> (if 0 < i \<and> i + 1 < length name then take i name else name))"

text \<open>\<^verbatim>\<open>stem.replace(' ', '_')\<close>.\<close>

definition safe_name :: "string \<Rightarrow> string" where
  "safe_name stem = map (\<lambda>c. if c = CHR '' '' then CHR ''_'' else c) stem"

text \<open>\<^verbatim>\<open>s.split('-')\<close>: the pieces between the separators, at least one.\<close>

fun split_on :: "char \<Rightarrow> string \<Rightarrow> string list" where
  "split_on c [] = [[]]"
| "split_on c (x # xs) =
     (case split_on c xs of
        [] \<Rightarrow> [[x]]
      | h # t \<Rightarrow> (if x = c then [] # h # t else (x # h) # t))"

text \<open>
  \<^verbatim>\<open>re.findall(r'\b[a-zA-Z0-9]+\b', s)\<close>. A word character of \<^verbatim>\<open>\b\<close> is a letter, a digit
  or the underscore. The scan carries whether the character before the position is a word
  character; a match starts at an alphanumeric character after a boundary, takes the
  longest alphanumeric run, and succeeds when a boundary follows the run. No shorter run
  ends at a boundary, so a failed position is left by one character; after a match the
  scan goes on behind it.
\<close>

definition is_alnum :: "char \<Rightarrow> bool" where
  "is_alnum c = (is_digit c \<or> is_upper c \<or> is_lower c)"

definition is_word_char :: "char \<Rightarrow> bool" where
  "is_word_char c = (is_alnum c \<or> c = CHR ''_'')"

function findall_words :: "bool \<Rightarrow> string \<Rightarrow> string list" where
  "findall_words prev [] = []"
| "findall_words prev (c # cs) =
     (if is_alnum c \<and> \<not> prev then
        (case dropWhile is_alnum cs of
           [] \<Rightarrow> [c # takeWhile is_alnum cs]
         | d # ds \<Rightarrow>
             (if is_word_char d then findall_words (is_word_char c) cs
              else (c # takeWhile is_alnum cs) # findall_words True (d # ds)))
      else findall_words (is_word_char c) cs)"
  by pat_completeness auto
termination
proof (relation "measure (\<lambda>(prev, s). length s)")
  show "wf (measure (\<lambda>(prev, s). length s))" by simp
next
  fix prev :: bool and c :: char and cs :: string and d :: char and ds :: string
  assume "dropWhile is_alnum cs = d # ds"
  then have "length (d # ds) \<le> length cs"
    using length_dropWhile_le [of is_alnum cs] by simp
  then show "((True, d # ds), (prev, c # cs)) \<in> measure (\<lambda>(prev, s). length s)"
    by simp
qed simp_all

subsection \<open>Exceptions, artifacts and the output directory\<close>

text \<open>An exception carries \<^verbatim>\<open>type(e).__name__\<close> and \<^verbatim>\<open>str(e)\<close>.\<close>

datatype exn = Exn (exn_type: string) (exn_str: string)

datatype 'a outcome = Raised exn | Returned 'a

text \<open>A file of \<^verbatim>\<open>text_files\<close> exists with a content, or exists and cannot be read
  (opening or decoding it raises).\<close>

datatype artifact = Unreadable | Content string

text \<open>The rows of \<^verbatim>\<open>word_count_report.csv\<close>, section by section, and the rows of
  \<^verbatim>\<open>proper_names_report.csv\<close>.\<close>

record word_report =
  report_total_words :: nat
  report_pages_analyzed :: nat
  report_unique_words :: nat
  per_page_rows :: "(int \<times> nat) list"
  word_rows :: "(string \<times> nat \<times> int list) list"

type_synonym names_report = "(string \<times> nat \<times> int list) list"

text \<open>
  The output directory of one document: the names in \<^verbatim>\<open>png_images\<close>, the files of
  \<^verbatim>\<open>text_files\<close> by name, and the three report files. A directory that does not exist
  has no entries (\<^verbatim>\<open>get_last_processed_page\<close> returns 0 for both, and \<^verbatim>\<open>process_pdf\<close>
  creates both before any page task runs).
\<close>

record outdir =
  png_images :: "string list"
  text_files :: "string \<rightharpoonup> artifact"
  combined_output :: "string option"
  word_count_report :: "word_report option"
  proper_names_report :: "names_report option"

definition empty_outdir :: outdir where
  "empty_outdir = \<lparr>png_images = [], text_files = Map.empty, combined_output = None,
     word_count_report = None, proper_names_report = None\<rparr>"

subsection \<open>Page worker: \<^verbatim>\<open>process_page_task\<close>\<close>

text \<open>
  What the engines do on one page of the document: lines 76 to 81 (open, load, render,
  save the image) raise or succeed; lines 84 to 88 (recognition and the write of the
  text) raise or produce the recognised text; the write of the failure file in the
  handler (lines 96 and 97) raises or succeeds.
\<close>

record page_env =
  render_error :: "exn option"
  recognise :: "exn + string"
  sentinel_error :: "exn option"

type_synonym page_result = "bool \<times> int \<times> string option"

definition failure_handler ::
  "page_env \<Rightarrow> int \<Rightarrow> string \<Rightarrow> exn \<Rightarrow> outdir \<Rightarrow> page_result outcome \<times> outdir" where
  "failure_handler env page_index txt_filepath e fs =
     (let error_msg = ''OCR failed: '' @ exn_type e @ '': '' @ exn_str e in
      case sentinel_error env of
        Some e' \<Rightarrow> (Raised e', fs)
      | None \<Rightarrow>
          (Returned (False, page_index, Some error_msg),
           fs\<lparr>text_files := (text_files fs)
                (txt_filepath \<mapsto> Content (''OCR FAILED FOR THIS PAGE: '' @ error_msg))\<rparr>))"

definition process_page_task ::
  "(int \<Rightarrow> page_env) \<Rightarrow> int \<Rightarrow> outdir \<Rightarrow> page_result outcome \<times> outdir" where
  "process_page_task doc page_num fs =
     (let page_index = page_num + 1;
          png_filepath = fmt04d page_index @ ''.png'';
          txt_filepath = fmt04d page_index @ ''.txt''
      in
      if png_filepath \<in> set (png_images fs) \<and> text_files fs txt_filepath \<noteq> None
      then (Returned (True, page_index, None), fs)
      else
        (case render_error (doc page_num) of
           Some e \<Rightarrow> failure_handler (doc page_num) page_index txt_filepath e fs
         | None \<Rightarrow>
             (let fs1 = fs\<lparr>png_images := List.insert png_filepath (png_images fs)\<rparr> in
              case recognise (doc page_num) of
                Inl e \<Rightarrow> failure_handler (doc page_num) page_index txt_filepath e fs1
              | Inr text \<Rightarrow>
                  (Returned (True, page_index, None),
                   fs1\<lparr>text_files := (text_files fs1)(txt_filepath \<mapsto> Content (py_strip text))\<rparr>))))"

subsection \<open>Resume query: \<^verbatim>\<open>get_last_processed_page\<close>\<close>

definition processed_pages :: "outdir \<Rightarrow> int list" where
  "processed_pages fs =
     map (\<lambda>f. int_of_digits (path_stem f))
       (filter (\<lambda>f. path_suffix f = ''.png'' \<and> py_isdigit (path_stem f)
                  \<and> text_files fs (path_stem f @ ''.txt'') \<noteq> None)
          (png_images fs))"

definition get_last_processed_page :: "outdir \<Rightarrow> int" where
  "get_last_processed_page fs =
     (if processed_pages fs = [] then 0 else Max (set (processed_pages fs)))"

subsection \<open>Aggregation passes\<close>

text \<open>Whether the files of the output directory can be written is a parameter
  \<open>writable\<close> on file names; each pass writes its file inside \<^verbatim>\<open>try/except\<close> and only
  reports a failed write.\<close>

fun combine_loop ::
  "(string \<rightharpoonup> artifact) \<Rightarrow> int list \<Rightarrow> string list \<times> int list \<Rightarrow> string list \<times> int list" where
  "combine_loop tf [] acc = acc"
| "combine_loop tf (page_index # rest) (combined_content, skipped_pages) =
     (case tf (fmt04d page_index @ ''.txt'') of
        None \<Rightarrow> combine_loop tf rest (combined_content, skipped_pages @ [page_index])
      | Some Unreadable \<Rightarrow> combine_loop tf rest (combined_content, skipped_pages @ [page_index])
      | Some (Content content) \<Rightarrow>
          (if contains ''OCR FAILED'' content
           then combine_loop tf rest (combined_content, skipped_pages @ [page_index])
           else combine_loop tf rest
                  (combined_content @
                     [''--- Page '' @ py_str page_index @ '' ---'' @ [CHR 0x0A], content,
                      [CHR 0x0A, CHR 0x0A]],
                   skipped_pages)))"

definition combine_text_files :: "(string \<Rightarrow> bool) \<Rightarrow> int \<Rightarrow> int \<Rightarrow> outdir \<Rightarrow> outdir" where
  "combine_text_files writable start_page end_page fs =
     (let (combined_content, skipped_pages) =
            combine_loop (text_files fs) [start_page .. end_page] ([], [])
      in
      if combined_content = [] then fs
      else if writable ''combined_output.txt''
        then fs\<lparr>combined_output := Some (concat combined_content)\<rparr>
        else fs)"

text \<open>A dictionary that keeps insertion order: assignment to a key, and the update of
  the \<^verbatim>\<open>defaultdict\<close> entry of a word (count and set of pages).\<close>

fun dict_set :: "'k \<Rightarrow> 'v \<Rightarrow> ('k \<times> 'v) list \<Rightarrow> ('k \<times> 'v) list" where
  "dict_set k v [] = [(k, v)]"
| "dict_set k v ((k', v') # kvs) =
     (if k' = k then (k, v) # kvs else (k', v') # dict_set k v kvs)"

type_synonym occurrences = "(string \<times> nat \<times> int set) list"

fun add_occurrence :: "int \<Rightarrow> occurrences \<Rightarrow> string \<Rightarrow> occurrences" where
  "add_occurrence page_index [] word = [(word, 1, {page_index})]"
| "add_occurrence page_index ((w, n, pages) # occ) word =
     (if w = word then (w, n + 1, insert page_index pages) # occ
      else (w, n, pages) # add_occurrence page_index occ word)"

definition page_words :: "string \<Rightarrow> string list" where
  "page_words content = filter (\<lambda>w. 2 < length w) (findall_words False (py_lower content))"

record word_acc =
  total_words :: nat
  page_word_counts :: "(int \<times> nat) list"
  word_occurrences :: occurrences

fun word_count_loop :: "(string \<rightharpoonup> artifact) \<Rightarrow> int list \<Rightarrow> word_acc \<Rightarrow> word_acc" where
  "word_count_loop tf [] acc = acc"
| "word_count_loop tf (page_index # rest) acc =
     (case tf (fmt04d page_index @ ''.txt'') of
        None \<Rightarrow> word_count_loop tf rest acc
      | Some Unreadable \<Rightarrow> word_count_loop tf rest acc
      | Some (Content content) \<Rightarrow>
          (if contains ''OCR FAILED'' content then word_count_loop tf rest acc
           else
             (let words = page_words content in
              word_count_loop tf rest
                \<lparr>total_words = total_words acc + length words,
                 page_word_counts = dict_set page_index (length words) (page_word_counts acc),
                 word_occurrences = foldl (add_occurrence page_index) (word_occurrences acc) words\<rparr>)))"

text \<open>The rows sorted by count, largest first; \<^verbatim>\<open>sorted\<close> is stable, also with
  \<^verbatim>\<open>reverse=True\<close>.\<close>

definition occurrence_rows :: "occurrences \<Rightarrow> (string \<times> nat \<times> int list) list" where
  "occurrence_rows occ =
     map (\<lambda>(w, n, pages). (w, n, sorted_list_of_set pages))
       (sort_key (\<lambda>(w, n, pages). - int n) occ)"

definition generate_word_count_csv :: "(string \<Rightarrow> bool) \<Rightarrow> int \<Rightarrow> int \<Rightarrow> outdir \<Rightarrow> outdir" where
  "generate_word_count_csv writable start_page end_page fs =
     (let acc = word_count_loop (text_files fs) [start_page .. end_page]
                  \<lparr>total_words = 0, page_word_counts = [], word_occurrences = []\<rparr>
      in
      if total_words acc = 0 then fs
      else if writable ''word_count_report.csv''
        then fs\<lparr>word_count_report := Some
               \<lparr>report_total_words = total_words acc,
                report_pages_analyzed = length (page_word_counts acc),
                report_unique_words = length (word_occurrences acc),
                per_page_rows = sort_key fst (page_word_counts acc),
                word_rows = occurrence_rows (word_occurrences acc)\<rparr>\<rparr>
        else fs)"

text \<open>
  spaCy: whether the import succeeded, whether the model loads, \<^verbatim>\<open>nlp.max_length\<close>, and the
  entities (text and label) that the model finds in a text. A text longer than
  \<^verbatim>\<open>max_length\<close> is cut into chunks; \<^verbatim>\<open>range(0, len(content), 0)\<close> raises, which the
  handler of the page catches.
\<close>

record nlp_env =
  spacy_available :: bool
  model_loads :: bool
  max_length :: nat
  ents :: "string \<Rightarrow> (string \<times> string) list"

function chunk_list :: "nat \<Rightarrow> string \<Rightarrow> string list" where
  "chunk_list n s = (if n = 0 \<or> s = [] then [] else take n s # chunk_list n (drop n s))"
  by pat_completeness auto
termination
  by (relation "measure (\<lambda>(n, s). length s)") auto

declare chunk_list.simps [simp del]

definition chunk_names :: "nlp_env \<Rightarrow> string \<Rightarrow> string list" where
  "chunk_names nlp text =
     filter (\<lambda>name. name \<noteq> [])
       (map (\<lambda>(t, label). py_strip t) (filter (\<lambda>(t, label). label = ''PERSON'') (ents nlp text)))"

definition page_names :: "nlp_env \<Rightarrow> string \<Rightarrow> string list option" where
  "page_names nlp content =
     (if max_length nlp < length content then
        (if max_length nlp = 0 then None
         else Some (concat (map (chunk_names nlp) (chunk_list (max_length nlp) content))))
      else Some (chunk_names nlp content))"

fun proper_names_loop ::
  "nlp_env \<Rightarrow> (string \<rightharpoonup> artifact) \<Rightarrow> int list \<Rightarrow> occurrences \<Rightarrow> occurrences" where
  "proper_names_loop nlp tf [] person_names = person_names"
| "proper_names_loop nlp tf (page_index # rest) person_names =
     (case tf (fmt04d page_index @ ''.txt'') of
        None \<Rightarrow> proper_names_loop nlp tf rest person_names
      | Some Unreadable \<Rightarrow> proper_names_loop nlp tf rest person_names
      | Some (Content content) \<Rightarrow>
          (if contains ''OCR FAILED'' content then proper_names_loop nlp tf rest person_names
           else
             (case page_names nlp content of
                None \<Rightarrow> proper_names_loop nlp tf rest person_names
              | Some names \<Rightarrow>
                  proper_names_loop nlp tf rest
                    (foldl (add_occurrence page_index) person_names names))))"

definition generate_proper_names_csv ::
  "nlp_env \<Rightarrow> (string \<Rightarrow> bool) \<Rightarrow> int \<Rightarrow> int \<Rightarrow> outdir \<Rightarrow> outdir" where
  "generate_proper_names_csv nlp writable start_page end_page fs =
     (if \<not> spacy_available nlp then fs
      else if \<not> model_loads nlp then fs
      else
        (let person_names = proper_names_loop nlp (text_files fs) [start_page .. end_page] [] in
         if person_names = [] then fs
         else if writable ''proper_names_report.csv''
           then fs\<lparr>proper_names_report := Some (occurrence_rows person_names)\<rparr>
           else fs))"

subsection \<open>Scheduler: \<^verbatim>\<open>process_pdf\<close>\<close>

record tally =
  success_count :: nat
  failure_count :: nat
  failure_messages :: "string list"

text \<open>One turn of the loop over \<^verbatim>\<open>as_completed(futures)\<close>: \<^verbatim>\<open>future.result()\<close> returns
  the worker's triple or raises what the worker raised.\<close>

fun tally_result :: "tally \<Rightarrow> page_result outcome \<Rightarrow> tally" where
  "tally_result t (Returned (success, page_index, error_msg)) =
     (if success then
        (if error_msg = None then t\<lparr>success_count := success_count t + 1\<rparr> else t)
      else t\<lparr>failure_count := failure_count t + 1,
             failure_messages := failure_messages t @
               [''Page '' @ fmt04d page_index @ '': '' @
                  (case error_msg of None \<Rightarrow> ''None'' | Some m \<Rightarrow> m)]\<rparr>)"
| "tally_result t (Raised e) = t\<lparr>failure_count := failure_count t + 1\<rparr>"

text \<open>The page tasks write disjoint files, so a run of the pool is a run of the tasks one
  after the other in the order in which they complete; the results arrive in that order.\<close>

fun run_tasks ::
  "(int \<Rightarrow> page_env) \<Rightarrow> int list \<Rightarrow> outdir \<Rightarrow> page_result outcome list \<times> outdir" where
  "run_tasks doc [] fs = ([], fs)"
| "run_tasks doc (page_num # rest) fs =
     (let (r, fs1) = process_page_task doc page_num fs;
          (rs, fs2) = run_tasks doc rest fs1
      in (r # rs, fs2))"

text \<open>
  A document and its surroundings: what opening it gives (\<^verbatim>\<open>len(doc)\<close> or an exception),
  whether the output directory and its two subdirectories can be created, the engines on
  each page, the order in which the pool completes the submitted page numbers, which
  files can be written, and the clock reading when an error of the document is logged.
\<close>

record doc_env =
  opens :: "exn + nat"
  mk_output_dir :: "exn option"
  mk_subdirs :: "exn option"
  page :: "int \<Rightarrow> page_env"
  completion :: "int list \<Rightarrow> int list"
  writable :: "string \<Rightarrow> bool"
  now :: string

definition process_pdf ::
  "nlp_env \<Rightarrow> doc_env \<Rightarrow> int \<Rightarrow> int \<Rightarrow> outdir \<Rightarrow> exn + tally \<times> outdir" where
  "process_pdf nlp doc start_page end_page fs =
     (case mk_subdirs doc of
        Some e \<Rightarrow> Inl e
      | None \<Rightarrow>
          (let pages_to_process_indices = [start_page - 1 .. end_page - 1];
               (results, fs1) = run_tasks (page doc) (completion doc pages_to_process_indices) fs;
               t = foldl tally_result
                     \<lparr>success_count = 0, failure_count = 0, failure_messages = []\<rparr> results
           in
           if 0 < success_count t then
             Inr (t, generate_proper_names_csv nlp (writable doc) start_page end_page
                       (generate_word_count_csv (writable doc) start_page end_page
                          (combine_text_files (writable doc) start_page end_page fs1)))
           else Inr (t, fs1)))"

subsection \<open>Batch coordinator\<close>

definition exn_msg :: "exn \<Rightarrow> string" where
  "exn_msg e = exn_type e @ '': '' @ exn_str e"

definition process_single_pdf ::
  "nlp_env \<Rightarrow> doc_env \<Rightarrow> outdir \<Rightarrow> (bool \<times> string option) \<times> outdir" where
  "process_single_pdf nlp doc fs =
     (case mk_output_dir doc of
        Some e \<Rightarrow> ((False, Some (exn_msg e)), fs)
      | None \<Rightarrow>
          (case opens doc of
             Inl e \<Rightarrow> ((False, Some (exn_msg e)), fs)
           | Inr total_pages \<Rightarrow>
               (if total_pages = 0 then ((False, Some ''PDF contains 0 pages''), fs)
                else
                  (case process_pdf nlp doc 1 (int total_pages) fs of
                     Inl e \<Rightarrow> ((False, Some (exn_msg e)), fs)
                   | Inr (t, fs') \<Rightarrow> ((True, None), fs')))))"

text \<open>The block that \<^verbatim>\<open>log_error_to_file\<close> appends to \<^verbatim>\<open>error_log.txt\<close>.\<close>

definition error_block :: "string \<Rightarrow> string \<Rightarrow> string \<Rightarrow> string" where
  "error_block timestamp name error_message =
     [CHR 0x0A] @ replicate 70 CHR ''='' @ [CHR 0x0A] @
     ''['' @ timestamp @ ''] ERROR processing: '' @ name @ [CHR 0x0A] @
     replicate 70 CHR ''-'' @ [CHR 0x0A] @
     error_message @ [CHR 0x0A] @
     replicate 70 CHR ''='' @ [CHR 0x0A, CHR 0x0A]"

definition log_error_to_file :: "doc_env \<Rightarrow> string \<Rightarrow> string \<Rightarrow> string \<Rightarrow> string" where
  "log_error_to_file doc name error_message log =
     (if writable doc ''error_log.txt'' then log @ error_block (now doc) name error_message
      else log)"

record batch_results =
  successful :: "string list"
  failed :: "(string \<times> string option) list"

text \<open>The state of a batch: the output directories under the base directory by name,
  and the content of \<^verbatim>\<open>error_log.txt\<close> in the source directory.\<close>

record batch_state =
  outputs :: "string \<Rightarrow> outdir"
  error_log :: string

definition output_dir_of :: "string \<Rightarrow> string" where
  "output_dir_of name = safe_name (path_stem name) @ ''_processed''"

fun batch_loop ::
  "nlp_env \<Rightarrow> (string \<times> doc_env) list \<Rightarrow> batch_results \<times> batch_state
     \<Rightarrow> batch_results \<times> batch_state" where
  "batch_loop nlp [] acc = acc"
| "batch_loop nlp ((name, doc) # rest) (results, st) =
     (let ((success, error_msg), fs') =
            process_single_pdf nlp doc (outputs st (output_dir_of name));
          st1 = st\<lparr>outputs := (outputs st)(output_dir_of name := fs')\<rparr>
      in
      if success then
        batch_loop nlp rest (results\<lparr>successful := successful results @ [name]\<rparr>, st1)
      else
        batch_loop nlp rest
          (results\<lparr>failed := failed results @ [(name, error_msg)]\<rparr>,
           st1\<lparr>error_log := log_error_to_file doc name
                  (case error_msg of None \<Rightarrow> ''None'' | Some m \<Rightarrow> m) (error_log st1)\<rparr>))"

definition process_directory ::
  "nlp_env \<Rightarrow> (string \<times> doc_env) list \<Rightarrow> batch_state \<Rightarrow> batch_results \<times> batch_state" where
  "process_directory nlp pdf_files st =
     (if pdf_files = [] then (\<lparr>successful = [], failed = []\<rparr>, st)
      else batch_loop nlp pdf_files (\<lparr>successful = [], failed = []\<rparr>, st))"

subsection \<open>Command line: \<^verbatim>\<open>setup_and_run\<close>\<close>

datatype menu_result = Exit nat | Pages int int

text \<open>
  The interactive loop reads the lines of the standard input; at the end of the input
  \<^verbatim>\<open>input()\<close> raises \<^verbatim>\<open>EOFError\<close>, which the last handler turns into \<^verbatim>\<open>sys.exit(1)\<close>.
  \<^verbatim>\<open>int\<close> is a parameter; \<^verbatim>\<open>None\<close> stands for its \<^verbatim>\<open>ValueError\<close>. \<^verbatim>\<open>parse_range\<close> is
  the body of the branch for a range: a range that does not split into two pieces, a
  piece that is not a number (both \<^verbatim>\<open>ValueError\<close>) and a range outside the document all
  send the loop to its next turn.
\<close>

definition parse_range :: "(string \<Rightarrow> int option) \<Rightarrow> int \<Rightarrow> string \<Rightarrow> (int \<times> int) option" where
  "parse_range py_int total_pages range_input =
     (case split_on CHR ''-'' range_input of
        [start_str, end_str] \<Rightarrow>
          (case py_int start_str of
             None \<Rightarrow> None
           | Some start_page_input \<Rightarrow>
               (case py_int end_str of
                  None \<Rightarrow> None
                | Some end_page_input \<Rightarrow>
                    (if 1 \<le> start_page_input \<and> start_page_input \<le> end_page_input
                        \<and> end_page_input \<le> total_pages
                     then Some (start_page_input, end_page_input) else None)))
      | _ \<Rightarrow> None)"

fun menu :: "(string \<Rightarrow> int option) \<Rightarrow> int \<Rightarrow> int \<Rightarrow> string list \<Rightarrow> menu_result" where
  "menu py_int last_page total_pages [] = Exit 1"
| "menu py_int last_page total_pages (line # rest) =
     (let mode = py_lower (py_strip line) in
      if mode = ''q'' then Exit 0
      else if mode = ''r'' then
        (if 0 < last_page then
           (if total_pages < last_page + 1 then Exit 0 else Pages (last_page + 1) total_pages)
         else menu py_int last_page total_pages rest)
      else if mode = ''a'' then Pages 1 total_pages
      else if mode = ''n'' then
        (case rest of
           [] \<Rightarrow> Exit 1
         | line2 # rest2 \<Rightarrow>
             (case parse_range py_int total_pages (py_strip line2) of
                Some (start_page, end_page) \<Rightarrow> Pages start_page end_page
              | None \<Rightarrow> menu py_int last_page total_pages rest2))
      else if CHR ''-'' \<in> set mode then
        (case parse_range py_int total_pages mode of
           Some (start_page, end_page) \<Rightarrow> Pages start_page end_page
         | None \<Rightarrow> menu py_int last_page total_pages rest)
      else menu py_int last_page total_pages rest)"

text \<open>
  The command line and what it finds: what \<^verbatim>\<open>parser.parse_args()\<close> does (it ends the
  process with a status, 2 for a usage error and 0 after \<^verbatim>\<open>--help\<close>, or it returns the
  arguments), whether the path exists and is a directory or a file, its name, the PDF
  files of the directory (after \<^verbatim>\<open>glob\<close> and \<^verbatim>\<open>sorted\<close>), the document behind a file, the
  lines typed, and the output directories. The terminal accepts what is printed. The
  result is the exit status of the process: the status of \<^verbatim>\<open>parse_args\<close>, the argument of
  \<^verbatim>\<open>sys.exit\<close>, 1 for an exception that nothing catches, 0 when the script runs to its
  end.
\<close>

record cli_env =
  argparse_exit :: "nat option"
  input_exists :: bool
  input_is_dir :: bool
  input_is_file :: bool
  input_name :: string
  pdf_files :: "(string \<times> doc_env) list"
  input_doc :: doc_env
  stdin :: "string list"
  py_int :: "string \<Rightarrow> int option"

definition setup_and_run :: "nlp_env \<Rightarrow> cli_env \<Rightarrow> batch_state \<Rightarrow> nat" where
  "setup_and_run nlp cli st =
     (case argparse_exit cli of
        Some status \<Rightarrow> status
      | None \<Rightarrow>
      (if \<not> input_exists cli then 1
      else if input_is_dir cli then
        (case process_directory nlp (pdf_files cli) st of (results, st') \<Rightarrow> 0)
      else if input_is_file cli then
        (if py_lower (path_suffix (input_name cli)) \<noteq> ''.pdf'' then 1
         else
           (case mk_output_dir (input_doc cli) of
              Some e \<Rightarrow> 1
            | None \<Rightarrow>
                (case opens (input_doc cli) of
                   Inl e \<Rightarrow> 1
                 | Inr total_pages \<Rightarrow>
                     (let output_dir = outputs st (output_dir_of (input_name cli));
                          last_page = get_last_processed_page output_dir
                      in
                      case menu (py_int cli) last_page (int total_pages) (stdin cli) of
                        Exit status \<Rightarrow> status
                      | Pages start_page end_page \<Rightarrow>
                          (case process_pdf nlp (input_doc cli) start_page end_page output_dir of
                             Inl e \<Rightarrow> 1
                           | Inr r \<Rightarrow> 0)))))
      else 1))"

subsection \<open>Notions used in the statements\<close>

text \<open>The two files of a page as its task sees them: whether the image exists, and the
  text file if there is one.\<close>

definition page_files :: "outdir \<Rightarrow> int \<Rightarrow> bool \<times> artifact option" where
  "page_files fs page_num =
     (fmt04d (page_num + 1) @ ''.png'' \<in> set (png_images fs),
      text_files fs (fmt04d (page_num + 1) @ ''.txt''))"

text \<open>The test of line 70, by which \<^verbatim>\<open>process_page_task\<close> returns at once: both files of the
  page exist, the page is a skipped, already processed page.\<close>

definition already_done :: "outdir \<Rightarrow> int \<Rightarrow> bool" where
  "already_done fs page_num =
     (fmt04d (page_num + 1) @ ''.png'' \<in> set (png_images fs)
      \<and> text_files fs (fmt04d (page_num + 1) @ ''.txt'') \<noteq> None)"

text \<open>The results of the page tasks of a run in the order in which they arrive.\<close>

definition run_results :: "doc_env \<Rightarrow> int \<Rightarrow> int \<Rightarrow> outdir \<Rightarrow> page_result outcome list" where
  "run_results doc start_page end_page fs =
     fst (run_tasks (page doc) (completion doc [start_page - 1 .. end_page - 1]) fs)"

text \<open>The test by which the three aggregation loops leave a page out: no text file, a
  text file that cannot be read, or a text that contains \<^verbatim>\<open>OCR FAILED\<close>.\<close>

definition page_excluded :: "(string \<rightharpoonup> artifact) \<Rightarrow> int \<Rightarrow> bool" where
  "page_excluded tf page_index =
     (case tf (fmt04d page_index @ ''.txt'') of
        None \<Rightarrow> True
      | Some Unreadable \<Rightarrow> True
      | Some (Content content) \<Rightarrow> contains ''OCR FAILED'' content)"

definition page_content :: "(string \<rightharpoonup> artifact) \<Rightarrow> int \<Rightarrow> string" where
  "page_content tf page_index =
     (case tf (fmt04d page_index @ ''.txt'') of Some (Content content) \<Rightarrow> content | _ \<Rightarrow> [])"

text \<open>What the combine pass appends for a page: delimiter, content, two line feeds.\<close>

definition page_block :: "(string \<rightharpoonup> artifact) \<Rightarrow> int \<Rightarrow> string list" where
  "page_block tf page_index =
     [''--- Page '' @ py_str page_index @ '' ---'' @ [CHR 0x0A], page_content tf page_index,
      [CHR 0x0A, CHR 0x0A]]"

text \<open>The pages and the count recorded for a word or a name, and the names found on a
  page (none when the chunking of the page raises).\<close>

definition pages_of :: "occurrences \<Rightarrow> string \<Rightarrow> int set" where
  "pages_of occ w = (case map_of occ w of None \<Rightarrow> {} | Some (n, pages) \<Rightarrow> pages)"


definition names_on_page :: "nlp_env \<Rightarrow> string \<Rightarrow> string list" where
  "names_on_page nlp content =
     (case page_names nlp content of None \<Rightarrow> [] | Some names \<Rightarrow> names)"




subsection \<open>Concrete pages, documents and directories\<close>

text \<open>Small inputs on which the functions above are run below.\<close>

definition good_page :: page_env where
  "good_page = \<lparr>render_error = None, recognise = Inr ''hello'', sentinel_error = None\<rparr>"

definition ocr_fails_page :: page_env where
  "ocr_fails_page = \<lparr>render_error = None,
     recognise = Inl (Exn ''TesseractError'' ''boom''), sentinel_error = None\<rparr>"

definition render_fails_page :: page_env where
  "render_fails_page = \<lparr>render_error = Some (Exn ''RuntimeError'' ''bad page''),
     recognise = Inr [], sentinel_error = None\<rparr>"

text \<open>Page 1 was processed by an earlier run: both of its files exist.\<close>

definition done_dir :: outdir where
  "done_dir = empty_outdir\<lparr>png_images := [''0001.png''],
     text_files := [''0001.txt'' \<mapsto> Content ''old text'']\<rparr>"

definition no_nlp :: nlp_env where
  "no_nlp = \<lparr>spacy_available = False, model_loads = False, max_length = 1000000,
     ents = (\<lambda>text. [])\<rparr>"

definition doc_of :: "nat \<Rightarrow> (int \<Rightarrow> page_env) \<Rightarrow> doc_env" where
  "doc_of n pages = \<lparr>opens = Inr n, mk_output_dir = None, mk_subdirs = None, page = pages,
     completion = (\<lambda>ps. ps), writable = (\<lambda>f. True), now = ''2024-01-01 00:00:00''\<rparr>"

text \<open>A document whose second page is rendered and then fails in recognition.\<close>

definition resume_pages :: "int \<Rightarrow> page_env" where
  "resume_pages page_num = (if page_num = 1 then ocr_fails_page else good_page)"

text \<open>Two pages, the second failing in recognition; the pool completes the page tasks
  in the reverse of the order of submission.\<close>

definition two_page_doc :: doc_env where
  "two_page_doc = (doc_of 2 resume_pages)\<lparr>completion := rev\<rparr>"

text \<open>A page that is recognised without error and whose text mentions the marker, the
  document that consists of it, and a recogniser that finds one person in every text.\<close>

definition marker_page :: page_env where
  "marker_page = \<lparr>render_error = None, recognise = Inr ''Scan log: OCR FAILED twice'',
     sentinel_error = None\<rparr>"

definition marker_doc :: doc_env where
  "marker_doc = doc_of 1 (\<lambda>p. marker_page)"

definition name_nlp :: nlp_env where
  "name_nlp = \<lparr>spacy_available = True, model_loads = True, max_length = 1000000,
     ents = (\<lambda>text. [(''Alice'', ''PERSON'')])\<rparr>"


text \<open>Documents of a batch: one whose pages all fail in rendering, one that cannot be
  opened, the same in a source directory where the log cannot be written, and a
  directory with three documents of which the second cannot be opened.\<close>

definition failing_doc :: doc_env where
  "failing_doc = doc_of 2 (\<lambda>p. render_fails_page)"

definition corrupt_doc :: doc_env where
  "corrupt_doc = (doc_of 0 (\<lambda>p. good_page))
     \<lparr>opens := Inl (Exn ''FileDataError'' ''cannot open broken document'')\<rparr>"

definition unlogged_doc :: doc_env where
  "unlogged_doc = corrupt_doc\<lparr>writable := (\<lambda>f. False)\<rparr>"

definition doc_a :: doc_env where
  "doc_a = doc_of 1 (\<lambda>p. good_page)"

definition doc_c :: doc_env where
  "doc_c = doc_of 2 (\<lambda>p. good_page)"

definition three_docs :: "(string \<times> doc_env) list" where
  "three_docs = [(''a.pdf'', doc_a), (''b.pdf'', corrupt_doc), (''c.pdf'', doc_c)]"

definition empty_batch :: batch_state where
  "empty_batch = \<lparr>outputs = (\<lambda>d. empty_outdir), error_log = []\<rparr>"

definition no_results :: batch_results where
  "no_results = \<lparr>successful = [], failed = []\<rparr>"

text \<open>The command line for a PDF file without pages, answered with \<open>a\<close>.\<close>

definition zero_page_doc :: doc_env where
  "zero_page_doc = doc_of 0 (\<lambda>p. good_page)"

definition zero_page_cli :: cli_env where
  "zero_page_cli = \<lparr>argparse_exit = None, input_exists = True, input_is_dir = False,
     input_is_file = True, input_name = ''empty.pdf'', pdf_files = [],
     input_doc = zero_page_doc, stdin = [''a''], py_int = (\<lambda>s. None)\<rparr>"

subsection \<open>Page numbers and file names\<close>

lemma is_digit_digit_char: "d < 10 \<Longrightarrow> is_digit (digit_char d)"
  by (simp add: is_digit_def digit_char_def)

lemma digit_val_digit_char: "d < 10 \<Longrightarrow> digit_val (digit_char d) = d"
  by (simp add: digit_val_def digit_char_def)

lemma digits_all_digit: "list_all is_digit (digits n)"
proof (induction n rule: digits.induct)
  case (1 n)
  show ?case
  proof (cases "n < 10")
    case True
    then show ?thesis by (subst digits.simps) (simp add: is_digit_digit_char)
  next
    case False
    then have "list_all is_digit (digits (n div 10))" using 1 by simp
    moreover have "is_digit (digit_char (n mod 10))" by (simp add: is_digit_digit_char)
    ultimately show ?thesis using False by (subst digits.simps) simp
  qed
qed

lemma digits_val_snoc: "digits_val (s @ [c]) = 10 * digits_val s + digit_val c"
  by (simp add: digits_val_def)

lemma digits_val_digits: "digits_val (digits n) = n"
proof (induction n rule: digits.induct)
  case (1 n)
  show ?case
  proof (cases "n < 10")
    case True
    then show ?thesis
      by (subst digits.simps) (simp add: digits_val_def digit_val_digit_char)
  next
    case False
    then have "digits_val (digits (n div 10)) = n div 10" using 1 by simp
    then show ?thesis using False
      by (subst digits.simps) (simp add: digits_val_snoc digit_val_digit_char)
  qed
qed

lemma foldl_zeros: "foldl (\<lambda>a c. 10 * a + digit_val c) 0 (replicate k CHR ''0'') = 0"
  by (induction k) (simp_all add: digit_val_def)

lemma digits_val_zfill: "digits_val (zfill w (digits n)) = n"
  using digits_val_digits [of n]
  by (simp add: zfill_def digits_val_def foldl_zeros)

lemma digits_nonempty: "digits n \<noteq> []"
  by (subst digits.simps) simp

lemma zfill_nonempty: "s \<noteq> [] \<Longrightarrow> zfill w s \<noteq> []"
  by (simp add: zfill_def)

lemma zfill_all_digit: "list_all is_digit s \<Longrightarrow> list_all is_digit (zfill w s)"
  by (auto simp: zfill_def list_all_iff is_digit_def)

lemma hd_zfill_digits: "hd (zfill w (digits n)) \<noteq> CHR ''-''"
proof -
  have "list_all is_digit (zfill w (digits n))"
    by (rule zfill_all_digit) (rule digits_all_digit)
  moreover have "zfill w (digits n) \<noteq> []"
    by (rule zfill_nonempty) (rule digits_nonempty)
  ultimately have "is_digit (hd (zfill w (digits n)))"
    by (cases "zfill w (digits n)") simp_all
  then show ?thesis by (auto simp: is_digit_def)
qed

lemma fmt04d_inj: "fmt04d i = fmt04d j \<Longrightarrow> i = j"
proof -
  assume eq: "fmt04d i = fmt04d j"
  consider (pp) "0 \<le> i" "0 \<le> j" | (nn) "i < 0" "j < 0" | (pn) "0 \<le> i" "j < 0" | (np) "i < 0" "0 \<le> j"
    by linarith
  then show ?thesis
  proof cases
    case pp
    then have "digits_val (zfill 4 (digits (nat i))) = digits_val (zfill 4 (digits (nat j)))"
      using eq by (simp add: fmt04d_def)
    then show ?thesis using pp by (simp add: digits_val_zfill)
  next
    case nn
    then have "digits_val (zfill 3 (digits (nat (- i)))) = digits_val (zfill 3 (digits (nat (- j))))"
      using eq by (simp add: fmt04d_def)
    then show ?thesis using nn by (simp add: digits_val_zfill)
  next
    case pn
    then have "hd (zfill 4 (digits (nat i))) = CHR ''-''"
      using eq by (simp add: fmt04d_def)
    then show ?thesis using hd_zfill_digits by blast
  next
    case np
    then have "CHR ''-'' # zfill 3 (digits (nat (- i))) = zfill 4 (digits (nat j))"
      using eq by (simp add: fmt04d_def)
    then have "hd (zfill 4 (digits (nat j))) = CHR ''-''"
      by (metis list.sel(1))
    then show ?thesis using hd_zfill_digits by blast
  qed
qed

subsection \<open>Evaluation of the helpers on the concrete names\<close>

lemma fmt04d_1: "fmt04d 1 = ''0001''"
  by code_simp

lemma fmt04d_2: "fmt04d 2 = ''0002''"
  by code_simp

lemma fmt04d_3: "fmt04d 3 = ''0003''"
  by code_simp

lemma stem_0001: "path_stem ''0001.png'' = ''0001'' \<and> path_suffix ''0001.png'' = ''.png''"
  by code_simp

lemma stem_0002: "path_stem ''0002.png'' = ''0002'' \<and> path_suffix ''0002.png'' = ''.png''"
  by code_simp

lemma isdigit_000x: "py_isdigit ''0001'' \<and> py_isdigit ''0002''"
  by code_simp

lemma int_000x: "int_of_digits ''0001'' = 1 \<and> int_of_digits ''0002'' = 2"
  by code_simp

lemma strip_hello: "py_strip ''hello'' = ''hello''"
  by code_simp

section \<open>The page worker and the success counter\<close>

text \<open>
  Claim C4: every invocation of the page worker returns exactly one of the three statuses
  Success, Failure and SkippedAlreadyDone, and a page whose two artifacts already exist
  returns SkippedAlreadyDone at once, distinguishable from Success, without rendering or
  recognising again.

  \<^verbatim>\<open>process_page_task\<close> returns at once on such a page and leaves the directory as it
  is, but the triple it returns there (line 71) is the triple \<^verbatim>\<open>(True, page_index, None)\<close>
  of a page that was rendered and recognised (line 90): the caller cannot tell the two
  apart, although the comment at line 442 of \<^verbatim>\<open>process_pdf\<close> expects that it can.
\<close>

theorem skipped_page_returns_the_success_triple:
  "process_page_task (\<lambda>p. good_page) 0 done_dir = (Returned (True, 1, None), done_dir)
   \<and> fst (process_page_task (\<lambda>p. good_page) 0 empty_outdir) = Returned (True, 1, None)
   \<and> snd (process_page_task (\<lambda>p. good_page) 0 empty_outdir) =
       empty_outdir\<lparr>png_images := [''0001.png''],
         text_files := [''0001.txt'' \<mapsto> Content ''hello'']\<rparr>"
  by (simp add: process_page_task_def good_page_def done_dir_def empty_outdir_def fmt04d_1
      strip_hello)

text \<open>
  Claim C1: a page result of SkippedAlreadyDone counts toward neither the success counter
  nor the failure counter; only pages newly processed in the run increment the success
  counter.

  The loop of \<^verbatim>\<open>process_pdf\<close> increments \<^verbatim>\<open>success_count\<close> when \<^verbatim>\<open>error_msg is None\<close>, with
  the comment "Only count as success if it wasn't a skipped, already-processed page"; the
  skipped page comes with \<^verbatim>\<open>error_msg = None\<close> as well. A run over page 1 alone, in a
  directory that holds both artifacts of page 1, ends with \<^verbatim>\<open>success_count = 1\<close>.
\<close>

theorem skipped_page_is_counted_as_success:
  "(case process_pdf no_nlp (doc_of 1 (\<lambda>p. good_page)) 1 1 done_dir of
      Inl e \<Rightarrow> False
    | Inr (t, fs) \<Rightarrow>
        success_count t = 1 \<and> failure_count t = 0 \<and> failure_messages t = []
        \<and> png_images fs = png_images done_dir \<and> text_files fs = text_files done_dir)"
  by (simp add: process_pdf_def doc_of_def process_page_task_def done_dir_def
      empty_outdir_def fmt04d_1 combine_text_files_def generate_word_count_csv_def
      generate_proper_names_csv_def no_nlp_def Let_def split: prod.splits)

section \<open>The resume query\<close>

text \<open>A run over two pages from an empty directory: page 1 succeeds, page 2 is rendered
  and fails in recognition.\<close>

lemma resume_run:
  "snd (run_tasks resume_pages [0, 1] empty_outdir) =
     \<lparr>png_images = [''0002.png'', ''0001.png''],
      text_files = [''0001.txt'' \<mapsto> Content ''hello'',
        ''0002.txt'' \<mapsto> Content ''OCR FAILED FOR THIS PAGE: OCR failed: TesseractError: boom''],
      combined_output = None, word_count_report = None, proper_names_report = None\<rparr>"
  by (simp add: process_page_task_def failure_handler_def resume_pages_def good_page_def
      ocr_fails_page_def empty_outdir_def fmt04d_1 fmt04d_2 strip_hello Let_def)

text \<open>
  Claim C2: when pages 1 to k are complete and page k+1 holds a failure sentinel,
  \<^verbatim>\<open>get_last_processed_page\<close> returns k; in general it returns the highest fully completed
  page (both artifacts, text without sentinel), or 0.

  \<^verbatim>\<open>get_last_processed_page\<close> ("the last successfully processed page number") looks at
  the existence of the two files only. A page that is rendered and then fails in
  recognition has its image and its failure file, and counts: with page 1 complete and
  page 2 failed in recognition the query returns 2.
\<close>

theorem last_processed_page_counts_failed_page:
  "text_files (snd (run_tasks resume_pages [0, 1] empty_outdir)) ''0002.txt'' =
     Some (Content ''OCR FAILED FOR THIS PAGE: OCR failed: TesseractError: boom'')
   \<and> get_last_processed_page (snd (run_tasks resume_pages [0, 1] empty_outdir)) = 2"
  unfolding resume_run
  by (simp add: get_last_processed_page_def processed_pages_def stem_0001 stem_0002
      isdigit_000x int_000x)

section \<open>Page tasks work on disjoint files\<close>

text \<open>A page task reads and writes the two files of its page only, so the tasks of
  distinct pages commute and a run is determined page by page.\<close>

lemma fmt04d_eq_iff: "fmt04d a = fmt04d b \<longleftrightarrow> a = b"
  using fmt04d_inj by blast

lemma task_local:
  assumes "page_files fs p = page_files gs p"
  shows "fst (process_page_task doc p fs) = fst (process_page_task doc p gs)
    \<and> page_files (snd (process_page_task doc p fs)) p
      = page_files (snd (process_page_task doc p gs)) p"
  using assms
  by (auto simp: page_files_def process_page_task_def failure_handler_def Let_def
      split: option.splits sum.splits)

lemma task_frame:
  assumes "q \<noteq> p"
  shows "page_files (snd (process_page_task doc p fs)) q = page_files fs q"
  using assms
  by (auto simp: page_files_def process_page_task_def failure_handler_def Let_def
      fmt04d_eq_iff split: option.splits sum.splits)

lemma task_reports:
  "combined_output (snd (process_page_task doc p fs)) = combined_output fs
   \<and> word_count_report (snd (process_page_task doc p fs)) = word_count_report fs
   \<and> proper_names_report (snd (process_page_task doc p fs)) = proper_names_report fs"
  by (auto simp: process_page_task_def failure_handler_def Let_def
      split: option.splits sum.splits)

lemma run_tasks_results:
  "distinct ps \<Longrightarrow>
     fst (run_tasks doc ps fs) = map (\<lambda>p. fst (process_page_task doc p fs)) ps"
proof (induction ps arbitrary: fs)
  case Nil
  then show ?case by simp
next
  case (Cons p ps)
  let ?fs1 = "snd (process_page_task doc p fs)"
  have tail: "fst (run_tasks doc ps ?fs1) = map (\<lambda>q. fst (process_page_task doc q ?fs1)) ps"
    using Cons by simp
  have "map (\<lambda>q. fst (process_page_task doc q ?fs1)) ps
      = map (\<lambda>q. fst (process_page_task doc q fs)) ps"
  proof (rule map_cong [OF refl])
    fix q assume "q \<in> set ps"
    then have "q \<noteq> p" using Cons.prems by auto
    then have "page_files ?fs1 q = page_files fs q" by (rule task_frame)
    then show "fst (process_page_task doc q ?fs1) = fst (process_page_task doc q fs)"
      using task_local by blast
  qed
  with tail show ?case by (simp add: split_beta)
qed

lemma run_tasks_files:
  "distinct ps \<Longrightarrow>
     page_files (snd (run_tasks doc ps fs)) q =
       (if q \<in> set ps then page_files (snd (process_page_task doc q fs)) q
        else page_files fs q)"
proof (induction ps arbitrary: fs)
  case Nil
  then show ?case by simp
next
  case (Cons p ps)
  let ?fs1 = "snd (process_page_task doc p fs)"
  have ih: "page_files (snd (run_tasks doc ps ?fs1)) q =
       (if q \<in> set ps then page_files (snd (process_page_task doc q ?fs1)) q
        else page_files ?fs1 q)"
    using Cons by simp
  have step: "snd (run_tasks doc (p # ps) fs) = snd (run_tasks doc ps ?fs1)"
    by (simp add: split_beta)
  show ?case
  proof (cases "q \<in> set ps")
    case True
    then have "q \<noteq> p" using Cons.prems by auto
    then have "page_files ?fs1 q = page_files fs q" by (rule task_frame)
    then have "page_files (snd (process_page_task doc q ?fs1)) q
        = page_files (snd (process_page_task doc q fs)) q"
      using task_local by blast
    with ih True step show ?thesis by simp
  next
    case False
    show ?thesis
    proof (cases "q = p")
      case True
      with ih False step show ?thesis by simp
    next
      case neq: False
      then have "page_files ?fs1 q = page_files fs q" by (rule task_frame)
      with ih False neq step show ?thesis by simp
    qed
  qed
qed

lemma run_tasks_reports:
  "combined_output (snd (run_tasks doc ps fs)) = combined_output fs
   \<and> word_count_report (snd (run_tasks doc ps fs)) = word_count_report fs
   \<and> proper_names_report (snd (run_tasks doc ps fs)) = proper_names_report fs"
  by (induction ps arbitrary: fs) (simp_all add: split_beta task_reports)

section \<open>The tally of a run\<close>

lemma success_count_foldl:
  "success_count (foldl tally_result t rs) = success_count t +
     sum_list (map (\<lambda>r. success_count
        (tally_result \<lparr>success_count = 0, failure_count = 0, failure_messages = []\<rparr> r)) rs)"
proof (induction rs arbitrary: t)
  case Nil
  then show ?case by simp
next
  case (Cons r rs)
  have "success_count (tally_result t r) = success_count t + success_count
       (tally_result \<lparr>success_count = 0, failure_count = 0, failure_messages = []\<rparr> r)"
    by (cases r) (auto split: prod.splits)
  with Cons [of "tally_result t r"] show ?case by simp
qed

lemma failure_count_foldl:
  "failure_count (foldl tally_result t rs) = failure_count t +
     sum_list (map (\<lambda>r. failure_count
        (tally_result \<lparr>success_count = 0, failure_count = 0, failure_messages = []\<rparr> r)) rs)"
proof (induction rs arbitrary: t)
  case Nil
  then show ?case by simp
next
  case (Cons r rs)
  have "failure_count (tally_result t r) = failure_count t + failure_count
       (tally_result \<lparr>success_count = 0, failure_count = 0, failure_messages = []\<rparr> r)"
    by (cases r) (auto split: prod.splits)
  with Cons [of "tally_result t r"] show ?case by simp
qed

lemma sum_list_map_perm:
  fixes f :: "'a \<Rightarrow> nat"
  assumes "mset xs = mset ys"
  shows "sum_list (map f xs) = sum_list (map f ys)"
proof -
  have "sum_list (map f xs) = sum_mset (image_mset f (mset xs))"
    by (metis mset_map sum_mset_sum_list)
  also have "\<dots> = sum_mset (image_mset f (mset ys))" using assms by simp
  also have "\<dots> = sum_list (map f ys)" by (metis mset_map sum_mset_sum_list)
  finally show ?thesis .
qed

lemma counts_perm:
  assumes "mset rs = mset rs'"
  shows "success_count (foldl tally_result t rs) = success_count (foldl tally_result t rs')
    \<and> failure_count (foldl tally_result t rs) = failure_count (foldl tally_result t rs')"
  by (simp add: success_count_foldl failure_count_foldl sum_list_map_perm [OF assms])

lemma results_perm:
  assumes "mset ps = mset qs" and "distinct qs"
  shows "mset (fst (run_tasks doc ps fs)) = mset (fst (run_tasks doc qs fs))"
proof -
  have "distinct ps" using assms by (metis mset_eq_imp_distinct_iff)
  then show ?thesis
    using assms by (simp add: run_tasks_results)
qed

lemma process_pdf_tally:
  assumes "mk_subdirs doc = None"
  shows "\<exists>fs'. process_pdf nlp doc start_page end_page fs =
     Inr (foldl tally_result \<lparr>success_count = 0, failure_count = 0, failure_messages = []\<rparr>
            (run_results doc start_page end_page fs), fs')"
  using assms by (simp add: process_pdf_def run_results_def Let_def split_beta)

text \<open>
  Claim C3: for any N page units submitted to one run of the scheduler, after all units
  are complete the tally satisfies successCount + failureCount + skipCount = N, whatever
  the order in which the results of the workers arrive.

  \<^verbatim>\<open>process_pdf\<close> keeps two counters. A page that \<^verbatim>\<open>process_page_task\<close> skips because both of
  its files exist (\<^const>\<open>already_done\<close>) is counted in \<^verbatim>\<open>success_count\<close>, so it is counted
  twice in the sum of the claim: the run over page 1 alone, in a directory that holds
  both artifacts of page 1, submits one unit, skips one page, and ends with
  \<^verbatim>\<open>success_count = 1\<close> and \<^verbatim>\<open>failure_count = 0\<close>; the sum is 2.
\<close>

theorem skipped_page_is_counted_twice_in_the_sum:
  "already_done done_dir 0
   \<and> length [(1::int) - 1 .. 1 - 1] = 1
   \<and> (case process_pdf no_nlp doc_a 1 1 done_dir of
        Inl e \<Rightarrow> False
      | Inr (t, fs) \<Rightarrow>
          success_count t = 1 \<and> failure_count t = 0
          \<and> success_count t + failure_count t
              + length (filter (already_done done_dir) [1 - 1 .. 1 - 1]) = 2)"
  by (simp add: already_done_def process_pdf_def doc_a_def doc_of_def process_page_task_def
      done_dir_def empty_outdir_def fmt04d_1 combine_text_files_def generate_word_count_csv_def
      generate_proper_names_csv_def no_nlp_def Let_def split: prod.splits)

section \<open>The combine pass\<close>

lemma combine_loop_spec:
  "combine_loop tf pages (cc, sk) =
     (cc @ concat (map (page_block tf) (filter (\<lambda>i. \<not> page_excluded tf i) pages)),
      sk @ filter (page_excluded tf) pages)"
proof (induction pages arbitrary: cc sk)
  case Nil
  then show ?case by simp
next
  case (Cons i pages)
  show ?case
  proof (cases "tf (fmt04d i @ ''.txt'')")
    case None
    then show ?thesis using Cons by (simp add: page_excluded_def)
  next
    case (Some a)
    show ?thesis
    proof (cases a)
      case Unreadable
      with Some show ?thesis using Cons by (simp add: page_excluded_def)
    next
      case (Content content)
      with Some show ?thesis using Cons
        by (simp add: page_excluded_def page_block_def page_content_def)
    qed
  qed
qed

lemma page_block_nonempty: "page_block tf i \<noteq> []"
  by (simp add: page_block_def)

lemma concat_blocks_empty:
  "concat (map (page_block tf) is) = [] \<longleftrightarrow> is = []"
  by (cases "is") (simp_all add: page_block_def)

lemma combine_text_files_spec:
  "combine_text_files w s e fs =
     (if filter (\<lambda>i. \<not> page_excluded (text_files fs) i) [s .. e] = [] then fs
      else if w ''combined_output.txt'' then
        fs\<lparr>combined_output := Some (concat (concat (map (page_block (text_files fs))
               (filter (\<lambda>i. \<not> page_excluded (text_files fs) i) [s .. e]))))\<rparr>
      else fs)"
proof -
  let ?inc = "filter (\<lambda>i. \<not> page_excluded (text_files fs) i) [s .. e]"
  have "combine_loop (text_files fs) [s .. e] ([], []) =
      (concat (map (page_block (text_files fs)) ?inc), filter (page_excluded (text_files fs)) [s .. e])"
    by (simp only: combine_loop_spec append_Nil)
  then show ?thesis
    unfolding combine_text_files_def
    by (simp only: Let_def prod.case concat_blocks_empty)
qed

lemma text_of_page_files: "text_files fs (fmt04d i @ ''.txt'') = snd (page_files fs (i - 1))"
  by (simp add: page_files_def)

lemma run_tasks_text_perm:
  assumes "mset ps = mset qs" and "distinct qs"
  shows "text_files (snd (run_tasks doc ps fs)) (fmt04d i @ ''.txt'')
       = text_files (snd (run_tasks doc qs fs)) (fmt04d i @ ''.txt'')"
proof -
  have "distinct ps" using assms by (metis mset_eq_imp_distinct_iff)
  moreover have "set ps = set qs" using assms(1) by (rule mset_eq_setD)
  ultimately have "page_files (snd (run_tasks doc ps fs)) (i - 1)
      = page_files (snd (run_tasks doc qs fs)) (i - 1)"
    using assms(2) by (simp add: run_tasks_files)
  then show ?thesis by (simp add: text_of_page_files)
qed

lemma combined_output_passes:
  "combined_output (generate_proper_names_csv nlp w s e fs) = combined_output fs
   \<and> combined_output (generate_word_count_csv w s e fs) = combined_output fs"
  by (simp add: generate_proper_names_csv_def generate_word_count_csv_def Let_def)

lemma combine_cong:
  assumes "\<And>i. text_files a (fmt04d i @ ''.txt'') = text_files b (fmt04d i @ ''.txt'')"
    and "combined_output a = combined_output b"
  shows "combined_output (combine_text_files w s e a) = combined_output (combine_text_files w s e b)"
proof -
  have ex: "page_excluded (text_files a) = page_excluded (text_files b)"
    by (intro ext) (simp add: page_excluded_def assms(1))
  have bl: "page_block (text_files a) = page_block (text_files b)"
    by (intro ext) (simp add: page_block_def page_content_def assms(1))
  show ?thesis
    by (simp add: combine_text_files_spec ex bl assms(2))
qed

lemma process_pdf_combined:
  assumes "mk_subdirs doc = None"
  shows "\<exists>fs'. process_pdf nlp doc s e fs =
        Inr (foldl tally_result \<lparr>success_count = 0, failure_count = 0, failure_messages = []\<rparr>
              (run_results doc s e fs), fs')
     \<and> combined_output fs' =
        (if 0 < success_count (foldl tally_result
                \<lparr>success_count = 0, failure_count = 0, failure_messages = []\<rparr>
                (run_results doc s e fs))
         then combined_output (combine_text_files (writable doc) s e
                (snd (run_tasks (page doc) (completion doc [s - 1 .. e - 1]) fs)))
         else combined_output fs)"
  using assms
  by (simp add: process_pdf_def run_results_def Let_def split_beta combined_output_passes
      run_tasks_reports)

text \<open>
  Claim C7: for every page range and every fixed set of text artifacts on disk, the
  combine pass reads the artifacts in strictly increasing order of the page index,
  concatenates the contents that are not skipped with a page delimiter, and its output
  is the same bytes whatever the order in which the workers that made the artifacts
  completed.

  Two runs of \<^verbatim>\<open>process_pdf\<close> from the same directory that differ only in the order in
  which the pool completes the page tasks both return, and end with the same
  \<^verbatim>\<open>combined_output.txt\<close>. The file that \<^verbatim>\<open>combine_text_files\<close> writes is the concatenation,
  over the pages of the range in increasing order that are not left out, of delimiter,
  content and two line feeds; it writes nothing when every page is left out or the file
  cannot be written.
\<close>

theorem combine_is_ordered_and_order_independent:
  assumes "mk_subdirs doc = None"
    and "mset (completion doc [start_page - 1 .. end_page - 1]) = mset [start_page - 1 .. end_page - 1]"
    and "mset (c' [start_page - 1 .. end_page - 1]) = mset [start_page - 1 .. end_page - 1]"
  shows "(\<exists>t fs1 t' fs2.
        process_pdf nlp doc start_page end_page fs = Inr (t, fs1)
      \<and> process_pdf nlp (doc\<lparr>completion := c'\<rparr>) start_page end_page fs = Inr (t', fs2)
      \<and> combined_output fs1 = combined_output fs2)
    \<and> combined_output (combine_text_files w start_page end_page gs) =
        (if filter (\<lambda>i. \<not> page_excluded (text_files gs) i) [start_page .. end_page] = []
         then combined_output gs
         else if w ''combined_output.txt'' then
           Some (concat (concat (map (page_block (text_files gs))
             (filter (\<lambda>i. \<not> page_excluded (text_files gs) i) [start_page .. end_page]))))
         else combined_output gs)
    \<and> sorted_wrt (<) (filter (\<lambda>i. \<not> page_excluded (text_files gs) i) [start_page .. end_page])"
proof -
  let ?z = "\<lparr>success_count = 0, failure_count = 0, failure_messages = []\<rparr>"
  let ?pages = "[start_page - 1 .. end_page - 1]"
  let ?d = "doc\<lparr>completion := c'\<rparr>"
  let ?ps = "completion doc ?pages"
  let ?qs = "c' ?pages"
  have dq: "distinct ?qs" using assms(3) by (metis distinct_upto mset_eq_imp_distinct_iff)
  have pq: "mset ?ps = mset ?qs" using assms(2,3) by simp
  have d': "mk_subdirs ?d = None" using assms(1) by simp
  obtain fs1 where 1: "process_pdf nlp doc start_page end_page fs =
        Inr (foldl tally_result ?z (run_results doc start_page end_page fs), fs1)"
    and c1: "combined_output fs1 =
        (if 0 < success_count (foldl tally_result ?z (run_results doc start_page end_page fs))
         then combined_output (combine_text_files (writable doc) start_page end_page
                (snd (run_tasks (page doc) ?ps fs)))
         else combined_output fs)"
    using process_pdf_combined [OF assms(1)] by blast
  obtain fs2 where 2: "process_pdf nlp ?d start_page end_page fs =
        Inr (foldl tally_result ?z (run_results ?d start_page end_page fs), fs2)"
    and c2: "combined_output fs2 =
        (if 0 < success_count (foldl tally_result ?z (run_results ?d start_page end_page fs))
         then combined_output (combine_text_files (writable ?d) start_page end_page
                (snd (run_tasks (page ?d) (completion ?d ?pages) fs)))
         else combined_output fs)"
    using process_pdf_combined [OF d'] by blast
  have "mset (run_results doc start_page end_page fs) = mset (run_results ?d start_page end_page fs)"
    unfolding run_results_def using results_perm [OF pq dq] by simp
  then have cnt: "success_count (foldl tally_result ?z (run_results doc start_page end_page fs))
      = success_count (foldl tally_result ?z (run_results ?d start_page end_page fs))"
    using counts_perm by blast
  have "combined_output (combine_text_files (writable doc) start_page end_page
            (snd (run_tasks (page doc) ?ps fs)))
      = combined_output (combine_text_files (writable doc) start_page end_page
            (snd (run_tasks (page doc) ?qs fs)))"
    by (rule combine_cong) (simp_all add: run_tasks_text_perm [OF pq dq] run_tasks_reports)
  with c1 c2 cnt have "combined_output fs1 = combined_output fs2" by simp
  with 1 2 have first: "\<exists>t fs1 t' fs2.
        process_pdf nlp doc start_page end_page fs = Inr (t, fs1)
      \<and> process_pdf nlp ?d start_page end_page fs = Inr (t', fs2)
      \<and> combined_output fs1 = combined_output fs2" by blast
  have third: "sorted_wrt (<) (filter (\<lambda>i. \<not> page_excluded (text_files gs) i) [start_page .. end_page])"
    by (rule sorted_wrt_filter) (simp add: sorted_wrt_upto)
  show ?thesis
    using first third by (simp add: combine_text_files_spec)
qed

theorem combine_is_ordered_and_order_independent_witness:
  "mk_subdirs two_page_doc = None
   \<and> mset (completion two_page_doc [1 - 1 .. 2 - 1]) = mset [1 - 1 .. 2 - 1]
   \<and> mset ((\<lambda>ps. ps) [(1::int) - 1 .. 2 - 1]) = mset [1 - 1 .. 2 - 1]
   \<and> (\<exists>t fs1 t' fs2.
        process_pdf no_nlp two_page_doc 1 2 empty_outdir = Inr (t, fs1)
      \<and> process_pdf no_nlp (two_page_doc\<lparr>completion := (\<lambda>ps. ps)\<rparr>) 1 2 empty_outdir = Inr (t', fs2)
      \<and> combined_output fs1 = combined_output fs2)"
proof -
  have h1: "mk_subdirs two_page_doc = None"
    by (simp add: two_page_doc_def doc_of_def)
  have h2: "mset (completion two_page_doc [1 - 1 .. 2 - 1]) = mset [1 - 1 .. 2 - 1]"
    by (simp add: two_page_doc_def doc_of_def)
  have h3: "mset ((\<lambda>ps. ps) [(1::int) - 1 .. 2 - 1]) = mset [1 - 1 .. 2 - 1]"
    by simp
  note inst = combine_is_ordered_and_order_independent
    [where doc = two_page_doc and c' = "\<lambda>ps. ps" and start_page = 1 and end_page = 2
       and nlp = no_nlp and fs = empty_outdir and w = "\<lambda>f. True" and gs = empty_outdir]
  show ?thesis
    using h1 h2 h3 inst [OF h1 h2 h3] by blast
qed

section \<open>Which pages the aggregation passes leave out\<close>

lemma contains_iff: "contains sub s \<longleftrightarrow> (\<exists>pre post. s = pre @ sub @ post)"
proof (induction s)
  case Nil
  then show ?case by simp
next
  case (Cons c cs)
  show ?case
  proof
    assume "contains sub (c # cs)"
    then consider "prefix sub (c # cs)" | "contains sub cs" by auto
    then show "\<exists>pre post. c # cs = pre @ sub @ post"
    proof cases
      case 1
      then obtain post where "c # cs = sub @ post" by (auto simp: prefix_def)
      then have "c # cs = [] @ sub @ post" by simp
      then show ?thesis by blast
    next
      case 2
      then obtain pre post where "cs = pre @ sub @ post" using Cons by blast
      then have "c # cs = (c # pre) @ sub @ post" by simp
      then show ?thesis by blast
    qed
  next
    assume "\<exists>pre post. c # cs = pre @ sub @ post"
    then obtain pre post where eq: "c # cs = pre @ sub @ post" by blast
    show "contains sub (c # cs)"
    proof (cases pre)
      case Nil
      with eq have "prefix sub (c # cs)" by (simp add: prefix_def)
      then show ?thesis by simp
    next
      case (Cons a pre')
      with eq have "cs = pre' @ sub @ post" by simp
      then have "contains sub cs" using Cons.IH by blast
      then show ?thesis by simp
    qed
  qed
qed

lemma sentinel_contains_marker: "contains ''OCR FAILED'' (''OCR FAILED FOR THIS PAGE: '' @ msg)"
  by simp

lemma pages_of_add:
  "pages_of (add_occurrence i occ w) w' =
     (if w' = w then insert i (pages_of occ w') else pages_of occ w')"
  by (induction occ) (auto simp: pages_of_def)

lemma pages_of_foldl:
  "pages_of (foldl (add_occurrence i) occ ws) w' =
     (if w' \<in> set ws then insert i (pages_of occ w') else pages_of occ w')"
  by (induction ws arbitrary: occ) (auto simp: pages_of_add)

lemma keys_dict_set: "fst ` set (dict_set k v kvs) = insert k (fst ` set kvs)"
proof (induction kvs)
  case Nil
  then show ?case by simp
next
  case (Cons kv kvs)
  obtain k' v' where kv: "kv = (k', v')" by (cases kv)
  show ?case
  proof (cases "k' = k")
    case True
    then show ?thesis using kv by simp
  next
    case False
    then show ?thesis using kv Cons by (simp add: insert_commute)
  qed
qed

lemma word_loop_keys:
  "fst ` set (page_word_counts (word_count_loop tf pages acc)) =
     fst ` set (page_word_counts acc) \<union> {i \<in> set pages. \<not> page_excluded tf i}"
proof (induction pages arbitrary: acc)
  case Nil
  then show ?case by simp
next
  case (Cons i pages)
  show ?case
  proof (cases "tf (fmt04d i @ ''.txt'')")
    case None
    then show ?thesis using Cons by (auto simp: page_excluded_def)
  next
    case (Some a)
    show ?thesis
    proof (cases a)
      case Unreadable
      with Some show ?thesis using Cons by (auto simp: page_excluded_def)
    next
      case (Content content)
      with Some show ?thesis using Cons
        by (auto simp: page_excluded_def Let_def keys_dict_set)
    qed
  qed
qed


lemma names_loop_pages:
  "pages_of (proper_names_loop nlp tf pages occ) w =
     pages_of occ w \<union>
       {i \<in> set pages. \<not> page_excluded tf i
          \<and> w \<in> set (names_on_page nlp (page_content tf i))}"
proof (induction pages arbitrary: occ)
  case Nil
  then show ?case by simp
next
  case (Cons i pages)
  show ?case
  proof (cases "tf (fmt04d i @ ''.txt'')")
    case None
    then show ?thesis using Cons by (auto simp: page_excluded_def)
  next
    case (Some a)
    show ?thesis
    proof (cases a)
      case Unreadable
      with Some show ?thesis using Cons by (auto simp: page_excluded_def)
    next
      case (Content content)
      with Some show ?thesis using Cons
        by (auto simp: page_excluded_def page_content_def names_on_page_def pages_of_foldl
            split: option.splits)
    qed
  qed
qed

lemma page_excluded_iff:
  "page_excluded tf i \<longleftrightarrow>
     tf (fmt04d i @ ''.txt'') = None \<or> tf (fmt04d i @ ''.txt'') = Some Unreadable
     \<or> (\<exists>pre post. tf (fmt04d i @ ''.txt'') = Some (Content (pre @ ''OCR FAILED'' @ post)))"
proof (cases "tf (fmt04d i @ ''.txt'')")
  case None
  then show ?thesis by (simp add: page_excluded_def)
next
  case (Some a)
  then show ?thesis
    by (cases a) (simp_all add: page_excluded_def contains_iff del: contains.simps)
qed

lemma strip_marker_text: "py_strip ''Scan log: OCR FAILED twice'' = ''Scan log: OCR FAILED twice''"
  by code_simp

lemma words_marker_text:
  "page_words ''Scan log: OCR FAILED twice'' = [''scan'', ''log'', ''ocr'', ''failed'', ''twice'']"
  by code_simp

lemma strip_alice: "py_strip ''Alice'' = ''Alice''"
  by code_simp

text \<open>
  Claim C6: every aggregation pass (combine, word statistics, entity statistics) leaves
  a page of the range out if and only if its text artifact is missing, is unreadable, or
  is a failure sentinel, where the sentinel is identified by the text beginning with the
  marker; the content of a page that was recognised is never left out.

  The three passes test \<^verbatim>\<open>"OCR FAILED" in content\<close>, under the comments "Skip failed OCR
  pages" and the docstring "skipping pages that failed OCR". A page whose recognition
  succeeds with the text \<open>Scan log: OCR FAILED twice\<close> does not begin with the marker; the
  worker reports success and writes the text; the text has five tokens and the
  recogniser finds a person in it; and the run writes none of \<^verbatim>\<open>combined_output.txt\<close>,
  \<^verbatim>\<open>word_count_report.csv\<close> and \<^verbatim>\<open>proper_names_report.csv\<close>: every pass left the page out.
\<close>

theorem marker_inside_recognised_text_is_excluded:
  "\<not> prefix ''OCR FAILED'' ''Scan log: OCR FAILED twice''
   \<and> page_words ''Scan log: OCR FAILED twice'' = [''scan'', ''log'', ''ocr'', ''failed'', ''twice'']
   \<and> chunk_names name_nlp ''Scan log: OCR FAILED twice'' = [''Alice'']
   \<and> (case process_pdf name_nlp marker_doc 1 1 empty_outdir of
        Inl e \<Rightarrow> False
      | Inr (t, fs) \<Rightarrow>
          success_count t = 1 \<and> failure_count t = 0
          \<and> text_files fs ''0001.txt'' = Some (Content ''Scan log: OCR FAILED twice'')
          \<and> combined_output fs = None \<and> word_count_report fs = None
          \<and> proper_names_report fs = None)"
proof -
  have run: "(case process_pdf name_nlp marker_doc 1 1 empty_outdir of
        Inl e \<Rightarrow> False
      | Inr (t, fs) \<Rightarrow>
          success_count t = 1 \<and> failure_count t = 0
          \<and> text_files fs ''0001.txt'' = Some (Content ''Scan log: OCR FAILED twice'')
          \<and> combined_output fs = None \<and> word_count_report fs = None
          \<and> proper_names_report fs = None)"
    by (simp add: process_pdf_def marker_doc_def doc_of_def process_page_task_def
        marker_page_def empty_outdir_def fmt04d_1 strip_marker_text combine_text_files_def
        generate_word_count_csv_def generate_proper_names_csv_def name_nlp_def Let_def)
  have names: "chunk_names name_nlp ''Scan log: OCR FAILED twice'' = [''Alice'']"
    by (simp add: chunk_names_def name_nlp_def strip_alice)
  show ?thesis using run names words_marker_text by simp
qed

section \<open>What the word pass records\<close>


























section \<open>The word statistics\<close>



lemma upto_1_2: "[1 .. 2] = [1, 2::int]"
  by (simp add: upto.simps)


lemma sorted_pages: "sorted_list_of_set {1, 2::int} = [1, 2]
    \<and> sorted_list_of_set {1::int} = [1] \<and> sorted_list_of_set {2::int} = [2]"
  by simp







section \<open>Batch mode\<close>

lemma single_pdf_ok:
  assumes "mk_output_dir doc = None" and "opens doc = Inr n" and "0 < n"
    and "process_pdf nlp doc 1 (int n) fs = Inr (t, fs')"
  shows "process_single_pdf nlp doc fs = ((True, None), fs')"
  using assms by (simp add: process_single_pdf_def)

lemma single_pdf_caught:
  "(mk_output_dir doc = Some e \<longrightarrow>
      process_single_pdf nlp doc fs = ((False, Some (exn_msg e)), fs))
   \<and> (mk_output_dir doc = None \<and> opens doc = Inl e \<longrightarrow>
      process_single_pdf nlp doc fs = ((False, Some (exn_msg e)), fs))
   \<and> (mk_output_dir doc = None \<and> opens doc = Inr n \<and> 0 < n
        \<and> process_pdf nlp doc 1 (int n) fs = Inl e \<longrightarrow>
      process_single_pdf nlp doc fs = ((False, Some (exn_msg e)), fs))"
  by (simp add: process_single_pdf_def)

lemma batch_step_ok:
  assumes "process_single_pdf nlp doc (outputs st (output_dir_of name)) = ((True, None), fs')"
  shows "batch_loop nlp ((name, doc) # rest) (results, st) =
     batch_loop nlp rest
       (results\<lparr>successful := successful results @ [name]\<rparr>,
        st\<lparr>outputs := (outputs st)(output_dir_of name := fs')\<rparr>)"
  using assms by simp

lemma batch_step_failed:
  assumes "process_single_pdf nlp doc (outputs st (output_dir_of name)) = ((False, Some m), fs')"
  shows "batch_loop nlp ((name, doc) # rest) (results, st) =
     batch_loop nlp rest
       (results\<lparr>failed := failed results @ [(name, Some m)]\<rparr>,
        st\<lparr>outputs := (outputs st)(output_dir_of name := fs'),
           error_log := (if writable doc ''error_log.txt''
              then error_log st @ error_block (now doc) name m else error_log st)\<rparr>)"
  using assms by (simp add: log_error_to_file_def)

lemma batch_loop_append:
  "batch_loop nlp (docs1 @ docs2) acc = batch_loop nlp docs2 (batch_loop nlp docs1 acc)"
proof (induction docs1 arbitrary: acc)
  case Nil
  then show ?case by simp
next
  case (Cons d docs1)
  obtain name doc where d: "d = (name, doc)" by (cases d)
  obtain results st where acc: "acc = (results, st)" by (cases acc)
  show ?case
    unfolding d acc using Cons by (simp add: Let_def split: prod.splits)
qed

lemma batch_count:
  "length (successful (fst (batch_loop nlp docs (results, st))))
     + length (failed (fst (batch_loop nlp docs (results, st))))
   = length (successful results) + length (failed results) + length docs"
proof (induction docs arbitrary: results st)
  case Nil
  then show ?case by simp
next
  case (Cons d docs)
  obtain name doc where d: "d = (name, doc)" by (cases d)
  show ?case
    unfolding d using Cons by (simp add: Let_def split: prod.splits)
qed

subsection \<open>The three documents\<close>

lemma output_dirs:
  "output_dir_of ''a.pdf'' = ''a_processed'' \<and> output_dir_of ''b.pdf'' = ''b_processed''
   \<and> output_dir_of ''c.pdf'' = ''c_processed''"
  by code_simp

lemma words_hello: "page_words ''hello'' = [''hello'']"
  by code_simp

lemma py_str_1_2: "py_str 1 = ''1'' \<and> py_str 2 = ''2''"
  by code_simp

lemma upto_1_1: "[1 .. 1] = [1::int]"
  by (simp add: upto.simps)

lemma upto_0_0: "[0 .. 0] = [0::int]"
  by (simp add: upto.simps)

lemma upto_0_1: "[0 .. 1] = [0, 1::int]"
  by (simp add: upto.simps)

lemma doc_a_run:
  "process_single_pdf no_nlp doc_a empty_outdir =
     ((True, None),
      \<lparr>png_images = [''0001.png''],
       text_files = [''0001.txt'' \<mapsto> Content ''hello''],
       combined_output = Some (''--- Page 1 ---'' @ [CHR 0x0A] @ ''hello'' @ [CHR 0x0A, CHR 0x0A]),
       word_count_report = Some \<lparr>report_total_words = 1, report_pages_analyzed = 1,
         report_unique_words = 1, per_page_rows = [(1, 1)], word_rows = [(''hello'', 1, [1])]\<rparr>,
       proper_names_report = None\<rparr>)"
  by (simp add: process_single_pdf_def process_pdf_def doc_a_def doc_of_def process_page_task_def
      good_page_def empty_outdir_def fmt04d_1 strip_hello upto_1_1 upto_0_0
      combine_text_files_def generate_word_count_csv_def generate_proper_names_csv_def
      no_nlp_def Let_def words_hello py_str_1_2 occurrence_rows_def)

lemma doc_c_run:
  "process_single_pdf no_nlp doc_c empty_outdir =
     ((True, None),
      \<lparr>png_images = [''0002.png'', ''0001.png''],
       text_files = [''0001.txt'' \<mapsto> Content ''hello'', ''0002.txt'' \<mapsto> Content ''hello''],
       combined_output = Some (''--- Page 1 ---'' @ [CHR 0x0A] @ ''hello'' @ [CHR 0x0A, CHR 0x0A]
          @ ''--- Page 2 ---'' @ [CHR 0x0A] @ ''hello'' @ [CHR 0x0A, CHR 0x0A]),
       word_count_report = Some \<lparr>report_total_words = 2, report_pages_analyzed = 2,
         report_unique_words = 1, per_page_rows = [(1, 1), (2, 1)],
         word_rows = [(''hello'', 2, [1, 2])]\<rparr>,
       proper_names_report = None\<rparr>)"
  by (simp add: process_single_pdf_def process_pdf_def doc_c_def doc_of_def process_page_task_def
      good_page_def empty_outdir_def fmt04d_1 fmt04d_2 strip_hello upto_1_2 upto_0_1
      combine_text_files_def generate_word_count_csv_def generate_proper_names_csv_def
      no_nlp_def Let_def words_hello py_str_1_2 occurrence_rows_def sorted_pages)

lemma doc_b_run:
  "process_single_pdf no_nlp corrupt_doc empty_outdir =
     ((False, Some ''FileDataError: cannot open broken document''), empty_outdir)"
  by (simp add: process_single_pdf_def corrupt_doc_def doc_of_def exn_msg_def)

lemma corrupt_doc_log: "writable corrupt_doc f \<and> now corrupt_doc = ''2024-01-01 00:00:00''"
  by (simp add: corrupt_doc_def doc_of_def)

lemma three_docs_run:
  "batch_loop no_nlp three_docs (no_results, empty_batch) =
     (\<lparr>successful = [''a.pdf'', ''c.pdf''],
       failed = [(''b.pdf'', Some ''FileDataError: cannot open broken document'')]\<rparr>,
      \<lparr>outputs = (\<lambda>d. empty_outdir)
         (''a_processed'' := snd (process_single_pdf no_nlp doc_a empty_outdir),
          ''b_processed'' := empty_outdir,
          ''c_processed'' := snd (process_single_pdf no_nlp doc_c empty_outdir)),
       error_log = error_block ''2024-01-01 00:00:00'' ''b.pdf''
          ''FileDataError: cannot open broken document''\<rparr>)"
  by (simp add: three_docs_def no_results_def empty_batch_def output_dirs doc_a_run doc_b_run
      doc_c_run log_error_to_file_def corrupt_doc_log)

lemma unlogged_run:
  "batch_loop no_nlp [(''b.pdf'', unlogged_doc)] (no_results, empty_batch) =
     (\<lparr>successful = [],
       failed = [(''b.pdf'', Some ''FileDataError: cannot open broken document'')]\<rparr>,
      \<lparr>outputs = (\<lambda>d. empty_outdir)(''b_processed'' := empty_outdir), error_log = []\<rparr>)"
  by (simp add: no_results_def empty_batch_def output_dirs log_error_to_file_def
      process_single_pdf_def unlogged_doc_def corrupt_doc_def doc_of_def exn_msg_def)

lemma failing_doc_run:
  "\<exists>fs'. process_pdf no_nlp failing_doc 1 2 empty_outdir =
     Inr (\<lparr>success_count = 0, failure_count = 2,
           failure_messages = [''Page 0001: OCR failed: RuntimeError: bad page'',
                               ''Page 0002: OCR failed: RuntimeError: bad page'']\<rparr>, fs')"
  by (simp add: process_pdf_def failing_doc_def doc_of_def process_page_task_def
      failure_handler_def render_fails_page_def empty_outdir_def fmt04d_1 fmt04d_2 upto_0_1
      Let_def)

lemma single_pdf_classified:
  "(\<exists>m. fst (process_single_pdf nlp doc fs) = (False, Some m))
   \<or> fst (process_single_pdf nlp doc fs) = (True, None)"
  by (auto simp: process_single_pdf_def split: option.splits sum.splits)

subsection \<open>Failures of a document\<close>

text \<open>
  A document that cannot be opened, in a source directory whose \<^verbatim>\<open>error_log.txt\<close> cannot
  be opened for appending: \<^verbatim>\<open>log_error_to_file\<close> prints a warning, the entry is in the
  list of failed documents and the log is as it was.
\<close>

theorem unwritable_log_gets_no_block:
  "failed (fst (batch_loop no_nlp [(''b.pdf'', unlogged_doc)] (no_results, empty_batch))) =
     [(''b.pdf'', Some ''FileDataError: cannot open broken document'')]
   \<and> error_log (snd (batch_loop no_nlp [(''b.pdf'', unlogged_doc)] (no_results, empty_batch)))
       = error_log empty_batch"
  unfolding unlogged_run by (simp add: empty_batch_def)

text \<open>
  Claim C9, as the source has it: in batch mode a failure anywhere in the pipeline of one
  document is caught and recorded as exactly one entry of the failed list, a block with
  the time is appended to \<^verbatim>\<open>error_log.txt\<close> of the source directory whenever that file
  can be written (otherwise a warning is printed), and processing goes on with the next
  document; in a directory of three documents of which only the second is corrupt, the
  first and the third are fully processed and exactly one failed entry is reported.

  The conjuncts: the step of the loop on a document that fails; every document ends as
  a success or as a failure with a message; an exception of the creation of the output
  directory, of opening the document or of \<^verbatim>\<open>process_pdf\<close> is turned into such a failure;
  the loop over a list of documents is the loop over its second part, started where
  the loop over the first part ends; every document adds exactly one entry to one of the
  two lists; the run on the three documents.
\<close>

theorem batch_isolates_document_failures:
  "(fst (process_single_pdf nlp doc (outputs st (output_dir_of name))) = (False, Some m) \<longrightarrow>
      batch_loop nlp ((name, doc) # rest) (results, st) =
        batch_loop nlp rest
          (results\<lparr>failed := failed results @ [(name, Some m)]\<rparr>,
           st\<lparr>outputs := (outputs st)(output_dir_of name :=
                  snd (process_single_pdf nlp doc (outputs st (output_dir_of name)))),
              error_log := (if writable doc ''error_log.txt''
                 then error_log st @ error_block (now doc) name m else error_log st)\<rparr>))
   \<and> ((\<exists>m. fst (process_single_pdf nlp doc fs) = (False, Some m))
        \<or> fst (process_single_pdf nlp doc fs) = (True, None))
   \<and> (mk_output_dir doc = Some e \<longrightarrow>
        process_single_pdf nlp doc fs = ((False, Some (exn_msg e)), fs))
   \<and> (mk_output_dir doc = None \<and> opens doc = Inl e \<longrightarrow>
        process_single_pdf nlp doc fs = ((False, Some (exn_msg e)), fs))
   \<and> (mk_output_dir doc = None \<and> opens doc = Inr n \<and> 0 < n
         \<and> process_pdf nlp doc 1 (int n) fs = Inl e \<longrightarrow>
        process_single_pdf nlp doc fs = ((False, Some (exn_msg e)), fs))
   \<and> batch_loop nlp (docs1 @ docs2) acc = batch_loop nlp docs2 (batch_loop nlp docs1 acc)
   \<and> length (successful (fst (batch_loop nlp docs (results, st))))
        + length (failed (fst (batch_loop nlp docs (results, st))))
      = length (successful results) + length (failed results) + length docs
   \<and> batch_loop no_nlp three_docs (no_results, empty_batch) =
       (\<lparr>successful = [''a.pdf'', ''c.pdf''],
         failed = [(''b.pdf'', Some ''FileDataError: cannot open broken document'')]\<rparr>,
        \<lparr>outputs = (\<lambda>d. empty_outdir)
           (''a_processed'' := snd (process_single_pdf no_nlp doc_a empty_outdir),
            ''b_processed'' := empty_outdir,
            ''c_processed'' := snd (process_single_pdf no_nlp doc_c empty_outdir)),
         error_log = error_block ''2024-01-01 00:00:00'' ''b.pdf''
            ''FileDataError: cannot open broken document''\<rparr>)"
proof -
  have step: "fst (process_single_pdf nlp doc (outputs st (output_dir_of name))) = (False, Some m) \<longrightarrow>
      batch_loop nlp ((name, doc) # rest) (results, st) =
        batch_loop nlp rest
          (results\<lparr>failed := failed results @ [(name, Some m)]\<rparr>,
           st\<lparr>outputs := (outputs st)(output_dir_of name :=
                  snd (process_single_pdf nlp doc (outputs st (output_dir_of name)))),
              error_log := (if writable doc ''error_log.txt''
                 then error_log st @ error_block (now doc) name m else error_log st)\<rparr>)"
  proof
    assume a: "fst (process_single_pdf nlp doc (outputs st (output_dir_of name))) = (False, Some m)"
    have "process_single_pdf nlp doc (outputs st (output_dir_of name)) =
        ((False, Some m), snd (process_single_pdf nlp doc (outputs st (output_dir_of name))))"
      using a by (metis prod.collapse)
    then show "batch_loop nlp ((name, doc) # rest) (results, st) =
        batch_loop nlp rest
          (results\<lparr>failed := failed results @ [(name, Some m)]\<rparr>,
           st\<lparr>outputs := (outputs st)(output_dir_of name :=
                  snd (process_single_pdf nlp doc (outputs st (output_dir_of name)))),
              error_log := (if writable doc ''error_log.txt''
                 then error_log st @ error_block (now doc) name m else error_log st)\<rparr>)"
      by (rule batch_step_failed)
  qed
  show ?thesis
    using step single_pdf_classified [of nlp doc fs] single_pdf_caught [of doc e nlp fs n]
      batch_loop_append [of nlp docs1 docs2 acc] batch_count [of nlp docs results st]
      three_docs_run
    by blast
qed

theorem batch_isolates_document_failures_witness:
  "fst (process_single_pdf no_nlp corrupt_doc (outputs empty_batch (output_dir_of ''b.pdf''))) =
     (False, Some ''FileDataError: cannot open broken document'')
   \<and> batch_loop no_nlp [(''b.pdf'', corrupt_doc)] (no_results, empty_batch) =
      (no_results\<lparr>failed := failed no_results @
           [(''b.pdf'', Some ''FileDataError: cannot open broken document'')]\<rparr>,
       empty_batch\<lparr>outputs := (outputs empty_batch)(output_dir_of ''b.pdf'' :=
            snd (process_single_pdf no_nlp corrupt_doc (outputs empty_batch (output_dir_of ''b.pdf'')))),
          error_log := error_log empty_batch @ error_block (now corrupt_doc) ''b.pdf''
            ''FileDataError: cannot open broken document''\<rparr>)"
proof -
  have h: "fst (process_single_pdf no_nlp corrupt_doc (outputs empty_batch (output_dir_of ''b.pdf''))) =
     (False, Some ''FileDataError: cannot open broken document'')"
    by (simp add: empty_batch_def doc_b_run)
  note inst = batch_isolates_document_failures
    [where nlp = no_nlp and doc = corrupt_doc and st = empty_batch and name = "''b.pdf''"
       and m = "''FileDataError: cannot open broken document''" and rest = "[]"
       and results = no_results]
  from inst have "fst (process_single_pdf no_nlp corrupt_doc (outputs empty_batch (output_dir_of ''b.pdf''))) =
     (False, Some ''FileDataError: cannot open broken document'') \<longrightarrow>
     batch_loop no_nlp [(''b.pdf'', corrupt_doc)] (no_results, empty_batch) =
       batch_loop no_nlp []
         (no_results\<lparr>failed := failed no_results @
             [(''b.pdf'', Some ''FileDataError: cannot open broken document'')]\<rparr>,
          empty_batch\<lparr>outputs := (outputs empty_batch)(output_dir_of ''b.pdf'' :=
              snd (process_single_pdf no_nlp corrupt_doc (outputs empty_batch (output_dir_of ''b.pdf'')))),
            error_log := (if writable corrupt_doc ''error_log.txt''
               then error_log empty_batch @ error_block (now corrupt_doc) ''b.pdf''
                 ''FileDataError: cannot open broken document''
               else error_log empty_batch)\<rparr>)"
    by (rule conjunct1)
  with h show ?thesis by (simp add: corrupt_doc_log)
qed

subsection \<open>Failures of pages\<close>

text \<open>
  Claim C10: in batch mode a document is recorded as successful whenever its pipeline
  run raises no exception, even if every page of the document failed in rendering or
  recognition; failures of pages never make the outcome of the document a failure.

  When the output directory is created, the document opens with at least one page and
  \<^verbatim>\<open>process_pdf\<close> returns, with whatever tally, \<^verbatim>\<open>process_single_pdf\<close> returns
  \<^verbatim>\<open>(True, None)\<close> and the loop of \<^verbatim>\<open>process_directory\<close> appends the name to the successful
  documents.
\<close>

theorem document_is_successful_despite_page_failures:
  assumes "mk_output_dir doc = None" and "opens doc = Inr n" and "0 < n"
    and "process_pdf nlp doc 1 (int n) (outputs st (output_dir_of name)) = Inr (t, fs')"
  shows "process_single_pdf nlp doc (outputs st (output_dir_of name)) = ((True, None), fs')
    \<and> batch_loop nlp ((name, doc) # rest) (results, st) =
        batch_loop nlp rest
          (results\<lparr>successful := successful results @ [name]\<rparr>,
           st\<lparr>outputs := (outputs st)(output_dir_of name := fs')\<rparr>)"
proof -
  have ok: "process_single_pdf nlp doc (outputs st (output_dir_of name)) = ((True, None), fs')"
    using assms by (rule single_pdf_ok)
  then show ?thesis using batch_step_ok by blast
qed

theorem document_is_successful_despite_page_failures_witness:
  "mk_output_dir failing_doc = None \<and> opens failing_doc = Inr 2 \<and> (0::nat) < 2
   \<and> (\<exists>t fs'.
        process_pdf no_nlp failing_doc 1 (int 2) (outputs empty_batch (output_dir_of ''f.pdf''))
          = Inr (t, fs')
      \<and> success_count t = 0 \<and> failure_count t = 2
      \<and> process_single_pdf no_nlp failing_doc (outputs empty_batch (output_dir_of ''f.pdf''))
          = ((True, None), fs')
      \<and> batch_loop no_nlp [(''f.pdf'', failing_doc)] (no_results, empty_batch) =
          (no_results\<lparr>successful := successful no_results @ [''f.pdf'']\<rparr>,
           empty_batch\<lparr>outputs := (outputs empty_batch)(output_dir_of ''f.pdf'' := fs')\<rparr>))"
proof -
  have h1: "mk_output_dir failing_doc = None" by (simp add: failing_doc_def doc_of_def)
  have h2: "opens failing_doc = Inr 2" by (simp add: failing_doc_def doc_of_def)
  have h3: "(0::nat) < 2" by simp
  obtain fs' where run: "process_pdf no_nlp failing_doc 1 (int 2)
      (outputs empty_batch (output_dir_of ''f.pdf'')) =
     Inr (\<lparr>success_count = 0, failure_count = 2,
           failure_messages = [''Page 0001: OCR failed: RuntimeError: bad page'',
                               ''Page 0002: OCR failed: RuntimeError: bad page'']\<rparr>, fs')"
    using failing_doc_run by (auto simp: empty_batch_def)
  note inst = document_is_successful_despite_page_failures
    [OF h1 h2 h3 run, where rest = "[]" and results = no_results]
  then have "process_single_pdf no_nlp failing_doc (outputs empty_batch (output_dir_of ''f.pdf''))
          = ((True, None), fs')
      \<and> batch_loop no_nlp [(''f.pdf'', failing_doc)] (no_results, empty_batch) =
          (no_results\<lparr>successful := successful no_results @ [''f.pdf'']\<rparr>,
           empty_batch\<lparr>outputs := (outputs empty_batch)(output_dir_of ''f.pdf'' := fs')\<rparr>)"
    by simp
  with h1 h2 h3 run show ?thesis by auto
qed

section \<open>The exit status of the command line\<close>

lemma process_pdf_status:
  "(case process_pdf nlp doc s e fs of Inl x \<Rightarrow> 1 | Inr r \<Rightarrow> 0) =
     (if mk_subdirs doc = None then 0 :: nat else 1)"
  by (auto simp: process_pdf_def Let_def split_beta split: option.splits)

lemma suffix_pdf: "py_lower (path_suffix ''empty.pdf'') = ''.pdf''"
  by code_simp

lemma mode_a: "py_lower (py_strip ''a'') = ''a''"
  by code_simp

lemma last_page_empty: "get_last_processed_page empty_outdir = 0"
  by (simp add: get_last_processed_page_def processed_pages_def empty_outdir_def)

lemma single_file_status:
  assumes "argparse_exit cli = None"
    and "input_exists cli" and "\<not> input_is_dir cli" and "input_is_file cli"
    and "py_lower (path_suffix (input_name cli)) = ''.pdf''"
    and "mk_output_dir (input_doc cli) = None" and "opens (input_doc cli) = Inr n"
  shows "setup_and_run nlp cli st =
     (case menu (py_int cli)
             (get_last_processed_page (outputs st (output_dir_of (input_name cli))))
             (int n) (stdin cli) of
        Exit k \<Rightarrow> k
      | Pages s e \<Rightarrow> (if mk_subdirs (input_doc cli) = None then 0 else 1))"
  using assms
  by (simp add: setup_and_run_def Let_def process_pdf_status split: menu_result.splits)

lemma zero_page_menu:
  "menu (py_int zero_page_cli)
     (get_last_processed_page (outputs empty_batch (output_dir_of (input_name zero_page_cli))))
     (int 0) (stdin zero_page_cli) = Pages 1 0"
  by (simp add: zero_page_cli_def empty_batch_def last_page_empty mode_a Let_def)

text \<open>
  Claim C5: the command line exits with a non-zero status on every unrecoverable setup
  error, which are a path that does not exist, an input file that is not a PDF, and a
  document with zero pages, and exits with zero otherwise, also when pages failed.

  \<^verbatim>\<open>setup_and_run\<close> ends with \<^verbatim>\<open>sys.exit(1)\<close> for the first two. For a PDF file without pages
  it has no test: the arguments parse, the file exists and opens with \<^verbatim>\<open>len(doc) = 0\<close>, the
  answer \<open>a\<close> selects the pages 1 to 0, \<^verbatim>\<open>process_pdf\<close> runs over the empty range, and the
  script ends with status 0. The path of the batch mode has the test: on the same
  document \<^verbatim>\<open>process_single_pdf\<close> returns the error "PDF contains 0 pages" (line 515).
\<close>

theorem zero_page_document_exits_zero:
  "argparse_exit zero_page_cli = None
   \<and> input_exists zero_page_cli \<and> input_is_file zero_page_cli
   \<and> opens (input_doc zero_page_cli) = Inr 0
   \<and> setup_and_run no_nlp zero_page_cli empty_batch = 0
   \<and> fst (process_single_pdf no_nlp (input_doc zero_page_cli) empty_outdir) =
       (False, Some ''PDF contains 0 pages'')"
proof -
  have facts: "argparse_exit zero_page_cli = None" "input_exists zero_page_cli"
    "\<not> input_is_dir zero_page_cli" "input_is_file zero_page_cli"
    "py_lower (path_suffix (input_name zero_page_cli)) = ''.pdf''"
    "mk_output_dir (input_doc zero_page_cli) = None"
    "opens (input_doc zero_page_cli) = Inr 0"
    by (simp_all add: zero_page_cli_def zero_page_doc_def doc_of_def suffix_pdf)
  have "setup_and_run no_nlp zero_page_cli empty_batch =
     (case menu (py_int zero_page_cli)
        (get_last_processed_page (outputs empty_batch (output_dir_of (input_name zero_page_cli))))
        (int 0) (stdin zero_page_cli) of
        Exit k \<Rightarrow> k
      | Pages s e \<Rightarrow> (if mk_subdirs (input_doc zero_page_cli) = None then 0 else 1))"
    using facts by (rule single_file_status)
  then have single: "setup_and_run no_nlp zero_page_cli empty_batch = 0"
    unfolding zero_page_menu by (simp add: zero_page_cli_def zero_page_doc_def doc_of_def)
  have sibling: "fst (process_single_pdf no_nlp (input_doc zero_page_cli) empty_outdir) =
       (False, Some ''PDF contains 0 pages'')"
    by (simp add: process_single_pdf_def zero_page_cli_def zero_page_doc_def doc_of_def)
  show ?thesis using facts single sibling by simp
qed

end
